theory Spec2Isabelle
  imports Main
begin

section \<open>Python floats\<close>

text \<open>
  Balances and amounts are Python floats, that is IEEE 754 binary64 numbers, and the
  views add, subtract and compare them as such. Every finite double is a whole multiple
  of \<open>2^-1074\<close> with at most 53 significant bits and a magnitude below \<open>2^1024\<close>:
  \<open>Finite sg n\<close> is the double of sign \<open>sg\<close> (\<open>True\<close> for minus) and magnitude
  \<open>n * 2^-1074\<close>, so the two zeros are \<open>Finite False 0\<close> and \<open>Finite True 0\<close>.
\<close>

datatype double = Finite bool nat | Infinity bool | NaN

text \<open>The number of significant bits of \<open>n\<close>.\<close>

fun bits :: "nat \<Rightarrow> nat" where
  "bits n = (if n = 0 then 0 else Suc (bits (n div 2)))"

declare bits.simps [simp del]

text \<open>
  Dropping the \<open>d\<close> lowest bits of \<open>n\<close>, to the nearest and to the even neighbour on a
  tie; \<open>round53\<close> keeps 53 significant bits that way. A result of \<open>2^1024\<close> or more (in
  units of \<open>2^-1074\<close>: \<open>2^2098\<close>) overflows to an infinity.
\<close>

definition round_even :: "nat \<Rightarrow> nat \<Rightarrow> nat" where
  "round_even n d =
     (let q = n div 2 ^ d; r = n mod 2 ^ d
      in if 2 ^ d < 2 * r \<or> (2 * r = 2 ^ d \<and> odd q) then q + 1 else q)"

definition round53 :: "nat \<Rightarrow> nat" where
  "round53 n = (let d = bits n - 53 in round_even n d * 2 ^ d)"

definition of_units :: "bool \<Rightarrow> nat \<Rightarrow> double" where
  "of_units sg n = (let r = round53 n in if 2 ^ 2098 \<le> r then Infinity sg else Finite sg r)"

definition signed :: "bool \<Rightarrow> nat \<Rightarrow> int" where
  "signed sg n = (if sg then - int n else int n)"

text \<open>
  \<^verbatim>\<open>x + y\<close>: the exact sum, rounded once. An exact zero sum is \<open>-0.0\<close> only when both
  operands are negative zeros.
\<close>

fun fadd :: "double \<Rightarrow> double \<Rightarrow> double" where
  "fadd (Finite s1 n1) (Finite s2 n2) =
     (let t = signed s1 n1 + signed s2 n2
      in if t = 0 then Finite (s1 \<and> s2) 0 else of_units (t < 0) (nat \<bar>t\<bar>))"
| "fadd (Finite s1 n1) (Infinity s2) = Infinity s2"
| "fadd (Infinity s1) (Finite s2 n2) = Infinity s1"
| "fadd (Infinity s1) (Infinity s2) = (if s1 = s2 then Infinity s1 else NaN)"
| "fadd NaN y = NaN"
| "fadd x NaN = NaN"

fun fneg :: "double \<Rightarrow> double" where
  "fneg (Finite sg n) = Finite (\<not> sg) n"
| "fneg (Infinity sg) = Infinity (\<not> sg)"
| "fneg NaN = NaN"

text \<open>\<^verbatim>\<open>x - y\<close> is the sum of \<open>x\<close> and the negated \<open>y\<close>; \<^verbatim>\<open>x < y\<close> is false on a NaN.\<close>

definition fsub :: "double \<Rightarrow> double \<Rightarrow> double" where
  "fsub x y = fadd x (fneg y)"

fun flt :: "double \<Rightarrow> double \<Rightarrow> bool" where
  "flt (Finite s1 n1) (Finite s2 n2) = (signed s1 n1 < signed s2 n2)"
| "flt (Finite s1 n1) (Infinity s2) = (\<not> s2)"
| "flt (Infinity s1) (Finite s2 n2) = s1"
| "flt (Infinity s1) (Infinity s2) = (s1 \<and> \<not> s2)"
| "flt NaN y = False"
| "flt x NaN = False"

text \<open>
  The positive double \<open>m * 2^e\<close> (for \<open>m < 2^53\<close> and \<open>- 1074 \<le> e\<close>), as
  \<^verbatim>\<open>float.hex\<close> prints it: \<open>0.1\<close> is \<open>dbl 7205759403792794 (- 56)\<close> and \<open>100.0\<close>
  is \<open>dbl 100 0\<close>.
\<close>

definition dbl :: "nat \<Rightarrow> int \<Rightarrow> double" where
  "dbl m e = Finite False (m * 2 ^ nat (e + 1074))"

text \<open>
  The exact value of a double in units of \<open>2^-1074\<close> (an integer for every finite
  double; 0 is returned for the infinities and NaN).
\<close>

fun units :: "double \<Rightarrow> int" where
  "units (Finite sg n) = signed sg n"
| "units (Infinity sg) = 0"
| "units NaN = 0"

text \<open>
  A whole number of magnitude at most \<open>L\<close>. Sums of such numbers that stay below \<open>2^53\<close>
  are computed without rounding.
\<close>

definition within :: "nat \<Rightarrow> double \<Rightarrow> bool" where
  "within L x =
     (case x of Finite sg n \<Rightarrow> n mod 2 ^ 1074 = 0 \<and> n div 2 ^ 1074 \<le> L | _ \<Rightarrow> False)"

section \<open>Data model\<close>

text \<open>
  The tables of the ledger as the views of \<^verbatim>\<open>app/views.py\<close> use them. Money amounts
  are Python floats (doubles, below); calendar days are triples; instants of the clock are
  natural numbers. Presentation data (names, notes, colours, flash messages)
  plays no part in any balance or ownership decision and is left out.
\<close>

datatype TransactionType = Income | Expense

datatype Frequency = Daily | Weekly | Monthly | Yearly

record date =
  year :: nat
  month :: nat
  day :: nat

type_synonym instant = nat

record Account =
  acc_user :: nat
  balance :: double
  is_active :: bool

record Category =
  cat_user :: "nat option"

record Transaction =
  t_id :: nat
  t_user :: nat
  t_date :: date
  t_amount :: double
  t_type :: TransactionType
  t_category :: "nat option"
  t_account :: "nat option"

record Recurring =
  r_id :: nat
  r_user :: nat
  r_amount :: double
  r_type :: TransactionType
  r_frequency :: Frequency
  r_category :: "nat option"
  r_account :: "nat option"
  r_start_date :: date
  r_end_date :: "date option"
  r_next_date :: date
  r_active :: bool

record Budget =
  b_id :: nat
  b_user :: nat
  b_category :: "nat option"
  b_amount :: double
  b_start :: date
  b_end :: date
  b_active :: bool

record Notification =
  n_id :: nat
  n_user :: nat
  n_kind :: string
  n_dedup_key :: string
  n_created_at :: instant
  n_is_read :: bool

record Achievement =
  a_id :: nat
  a_user :: nat
  condition_type :: string
  condition_value :: int
  is_unlocked :: bool
  unlocked_at :: "instant option"

text \<open>
  The database session. Accounts and categories are looked up by primary key
  (\<^verbatim>\<open>Account.query.get\<close>), so they are maps from ids; the other tables are row lists.
\<close>

record db =
  accounts :: "nat \<rightharpoonup> Account"
  categories :: "nat \<rightharpoonup> Category"
  transactions :: "Transaction list"
  recurrings :: "Recurring list"
  budgets :: "Budget list"
  notifications :: "Notification list"
  achievements :: "Achievement list"

definition empty_db :: db where
  "empty_db = \<lparr>accounts = Map.empty, categories = Map.empty, transactions = [],
     recurrings = [], budgets = [], notifications = [], achievements = []\<rparr>"

text \<open>
  What the client gets: a redirect, a rendered page, an abort, a JSON body, or the
  framework's 500 page for an exception that nothing caught.
\<close>

datatype response =
    Redirect
  | Render
  | Abort nat
  | Json_success nat
  | Json_error nat
  | Server_error

datatype py_error = AttributeError

section \<open>Ledger helpers\<close>

text \<open>
  \<^verbatim>\<open>acc.balance += d\<close> and \<^verbatim>\<open>acc.balance -= d\<close> on the account row with primary key
  \<open>i\<close>.
\<close>

definition adjust_balance :: "nat \<Rightarrow> double \<Rightarrow> db \<Rightarrow> db" where
  "adjust_balance i d s =
     (case accounts s i of
        None \<Rightarrow> s
      | Some a \<Rightarrow> s\<lparr>accounts := (accounts s)(i \<mapsto> a\<lparr>balance := fadd (balance a) d\<rparr>)\<rparr>)"

definition reduce_balance :: "nat \<Rightarrow> double \<Rightarrow> db \<Rightarrow> db" where
  "reduce_balance i d s =
     (case accounts s i of
        None \<Rightarrow> s
      | Some a \<Rightarrow> s\<lparr>accounts := (accounts s)(i \<mapsto> a\<lparr>balance := fsub (balance a) d\<rparr>)\<rparr>)"

text \<open>
  The two branches every view writes out: \<^verbatim>\<open>if type == income: balance += amount
  else: balance -= amount\<close>, and the reverse of it.
\<close>

definition apply_effect :: "nat \<Rightarrow> TransactionType \<Rightarrow> double \<Rightarrow> db \<Rightarrow> db" where
  "apply_effect i ty m s =
     (if ty = Income then adjust_balance i m s else reduce_balance i m s)"

definition rollback_effect :: "nat \<Rightarrow> TransactionType \<Rightarrow> double \<Rightarrow> db \<Rightarrow> db" where
  "rollback_effect i ty m s =
     (if ty = Income then reduce_balance i m s else adjust_balance i m s)"

text \<open>\<^verbatim>\<open>Account.query.get(i)\<close> and \<^verbatim>\<open>Category.query.get(c)\<close>: the row's key, or None.\<close>

definition get_account :: "db \<Rightarrow> nat \<Rightarrow> nat option" where
  "get_account s i = (case accounts s i of None \<Rightarrow> None | Some a \<Rightarrow> Some i)"

definition get_category :: "db \<Rightarrow> nat \<Rightarrow> nat option" where
  "get_category s c = (case categories s c of None \<Rightarrow> None | Some k \<Rightarrow> Some c)"

text \<open>The relationship \<^verbatim>\<open>t.account\<close>: the linked account row, or None.\<close>

definition account_of :: "db \<Rightarrow> Transaction \<Rightarrow> nat option" where
  "account_of s t = (case t_account t of None \<Rightarrow> None | Some i \<Rightarrow> get_account s i)"

text \<open>The primary key the database gives to the next inserted transaction.\<close>

definition new_id :: "Transaction list \<Rightarrow> nat" where
  "new_id ts = Suc (foldr max (map t_id ts) 0)"

text \<open>Writing the changed fields of one row object back: the first equal row is replaced.\<close>

primrec replace1 :: "'a \<Rightarrow> 'a \<Rightarrow> 'a list \<Rightarrow> 'a list" where
  "replace1 x y [] = []"
| "replace1 x y (z # zs) = (if z = x then y # zs else z # replace1 x y zs)"

section \<open>Forms\<close>

text \<open>
  The submitted transaction form. The form classes live in \<^verbatim>\<open>app/forms.py\<close>, which is
  not among the sources: \<open>f_fields_ok\<close> stands for the verdict of the field validators
  declared there. The views install the choices of the two select fields themselves,
  \<^verbatim>\<open>[(0, ...)] + [(a.id, a.name) for a in accounts]\<close> over the caller's active
  accounts (and the caller's or shared categories); a select field accepts only one of
  its choices.
\<close>

record TransactionForm =
  f_fields_ok :: bool
  f_date :: date
  f_amount :: double
  f_type :: string
  f_category :: nat
  f_account :: nat

definition account_choice :: "db \<Rightarrow> nat \<Rightarrow> nat \<Rightarrow> bool" where
  "account_choice s user_id i =
     (case accounts s i of None \<Rightarrow> False | Some a \<Rightarrow> is_active a \<and> acc_user a = user_id)"

definition category_choice :: "db \<Rightarrow> nat \<Rightarrow> nat \<Rightarrow> bool" where
  "category_choice s user_id c =
     (case categories s c of
        None \<Rightarrow> False
      | Some k \<Rightarrow> cat_user k = Some user_id \<or> cat_user k = None)"

definition validate_on_submit :: "db \<Rightarrow> nat \<Rightarrow> TransactionForm \<Rightarrow> bool" where
  "validate_on_submit s user_id form =
     (f_fields_ok form
      \<and> (f_category form = 0 \<or> category_choice s user_id (f_category form))
      \<and> (f_account form = 0 \<or> account_choice s user_id (f_account form)))"

definition form_type :: "TransactionForm \<Rightarrow> TransactionType" where
  "form_type form = (if f_type form = ''income'' then Income else Expense)"

section \<open>Transaction views\<close>

text \<open>\<^verbatim>\<open>add_transaction\<close> (POST): lines 508-546 of \<^verbatim>\<open>app/views.py\<close>.\<close>

definition add_transaction :: "nat \<Rightarrow> TransactionForm \<Rightarrow> db \<Rightarrow> response \<times> db" where
  "add_transaction user_id form s =
     (if validate_on_submit s user_id form then
        let cat = (if f_category form \<noteq> 0 then get_category s (f_category form) else None);
            acc = (if f_account form \<noteq> 0 then get_account s (f_account form) else None);
            s1 = (case acc of
                    None \<Rightarrow> s
                  | Some i \<Rightarrow>
                      if f_type form = ''income'' then adjust_balance i (f_amount form) s
                      else reduce_balance i (f_amount form) s);
            t = \<lparr>t_id = new_id (transactions s1), t_user = user_id, t_date = f_date form,
                 t_amount = f_amount form, t_type = form_type form,
                 t_category = cat, t_account = acc\<rparr>
        in (Redirect, s1\<lparr>transactions := transactions s1 @ [t]\<rparr>)
      else (Render, s))"

text \<open>\<^verbatim>\<open>edit_transaction\<close> (POST): lines 585-655.\<close>

definition edit_transaction ::
  "nat \<Rightarrow> nat \<Rightarrow> TransactionForm \<Rightarrow> db \<Rightarrow> response \<times> db" where
  "edit_transaction user_id trans_id form s =
     (case find (\<lambda>t. t_id t = trans_id \<and> t_user t = user_id) (transactions s) of
        None \<Rightarrow> (Abort 404, s)
      | Some t \<Rightarrow>
          if validate_on_submit s user_id form then
            let s1 = (case account_of s t of
                        None \<Rightarrow> s
                      | Some old_account \<Rightarrow>
                          rollback_effect old_account (t_type t) (t_amount t) s);
                cat = (if f_category form \<noteq> 0 then get_category s1 (f_category form)
                       else None);
                acc = (if f_account form \<noteq> 0 then get_account s1 (f_account form)
                       else None);
                t' = t\<lparr>t_date := f_date form, t_amount := f_amount form,
                       t_type := form_type form, t_category := cat, t_account := acc,
                       t_user := user_id\<rparr>;
                s2 = s1\<lparr>transactions := replace1 t t' (transactions s1)\<rparr>;
                s3 = (case acc of
                        None \<Rightarrow> s2
                      | Some i \<Rightarrow> apply_effect i (t_type t') (t_amount t') s2)
            in (Redirect, s3)
          else (Render, s))"

text \<open>\<^verbatim>\<open>delete_transaction\<close>: lines 659-673.\<close>

definition delete_transaction :: "nat \<Rightarrow> nat \<Rightarrow> db \<Rightarrow> response \<times> db" where
  "delete_transaction user_id trans_id s =
     (case find (\<lambda>t. t_id t = trans_id \<and> t_user t = user_id) (transactions s) of
        None \<Rightarrow> (Abort 404, s)
      | Some t \<Rightarrow>
          let s1 = (case account_of s t of
                      None \<Rightarrow> s
                    | Some a \<Rightarrow> rollback_effect a (t_type t) (t_amount t) s)
          in (Redirect, s1\<lparr>transactions := remove1 t (transactions s1)\<rparr>))"

text \<open>A user session: any sequence of the three requests, by any users.\<close>

datatype request =
    Add nat TransactionForm
  | Edit nat nat TransactionForm
  | Delete nat nat

fun handle :: "request \<Rightarrow> db \<Rightarrow> response \<times> db" where
  "handle (Add user_id form) s = add_transaction user_id form s"
| "handle (Edit user_id trans_id form) s = edit_transaction user_id trans_id form s"
| "handle (Delete user_id trans_id) s = delete_transaction user_id trans_id s"

fun run :: "request list \<Rightarrow> db \<Rightarrow> db" where
  "run [] s = s"
| "run (r # rs) s = run rs (snd (handle r s))"

text \<open>
  The signed effect of a transaction (income positive, expense negative) and the sum of
  the effects of the rows linked to account \<open>a\<close>, both as exact numbers (in units of
  \<open>2^-1074\<close>), not as rounded ones.
\<close>

definition effect :: "Transaction \<Rightarrow> int" where
  "effect t = (if t_type t = Income then units (t_amount t) else - units (t_amount t))"

definition linked_sum :: "db \<Rightarrow> nat \<Rightarrow> int" where
  "linked_sum s a =
     sum_list (map (\<lambda>t. if t_account t = Some a then effect t else 0) (transactions s))"


section \<open>Bulk operations\<close>

text \<open>
  \<^verbatim>\<open>bulk_delete_transactions\<close>: lines 780-806. The query keeps the caller's rows among
  the named ids; the loop rolls each row's effect back and deletes it.
\<close>

fun bulk_delete_loop :: "Transaction list \<Rightarrow> db \<times> nat \<Rightarrow> db \<times> nat" where
  "bulk_delete_loop [] (s, deleted) = (s, deleted)"
| "bulk_delete_loop (t # ts) (s, deleted) =
     (let s1 = (case account_of s t of
                  None \<Rightarrow> s
                | Some a \<Rightarrow> rollback_effect a (t_type t) (t_amount t) s)
      in bulk_delete_loop ts (s1\<lparr>transactions := remove1 t (transactions s1)\<rparr>, deleted + 1))"

definition bulk_delete_transactions :: "nat \<Rightarrow> nat list \<Rightarrow> db \<Rightarrow> response \<times> db" where
  "bulk_delete_transactions user_id transaction_ids s =
     (if transaction_ids = [] then (Json_error 400, s)
      else
        let rows = filter (\<lambda>t. t_id t \<in> set transaction_ids \<and> t_user t = user_id)
                     (transactions s);
            (s', deleted) = bulk_delete_loop rows (s, 0)
        in (Json_success deleted, s'))"

text \<open>
  \<^verbatim>\<open>bulk_edit_transactions\<close>: lines 727-776. \<^verbatim>\<open>category_id\<close> and \<^verbatim>\<open>account_id\<close> come
  from the JSON body and are used when truthy (present and not 0). Both lookups are
  filtered by the caller's id.
\<close>

definition own_category :: "db \<Rightarrow> nat \<Rightarrow> nat \<Rightarrow> nat option" where
  "own_category s user_id c =
     (case categories s c of
        None \<Rightarrow> None
      | Some k \<Rightarrow> if cat_user k = Some user_id then Some c else None)"

definition own_account :: "db \<Rightarrow> nat \<Rightarrow> nat \<Rightarrow> nat option" where
  "own_account s user_id i =
     (case accounts s i of
        None \<Rightarrow> None
      | Some a \<Rightarrow> if acc_user a = user_id then Some i else None)"

definition truthy :: "nat option \<Rightarrow> nat option" where
  "truthy x = (case x of None \<Rightarrow> None | Some n \<Rightarrow> if n = 0 then None else Some n)"

text \<open>
  One pass of the loop body for the row object \<open>t\<close>. The first component of the result
  is the exception that leaves the body, if any. Inside \<^verbatim>\<open>if new_acc:\<close> the rollback is
  guarded by \<^verbatim>\<open>if old_account:\<close>, the comparison \<^verbatim>\<open>old_account.id != new_acc.id\<close> that
  follows is not.
\<close>

definition bulk_edit_row ::
  "nat \<Rightarrow> nat option \<Rightarrow> nat option \<Rightarrow> Transaction \<Rightarrow> db \<times> nat \<Rightarrow> py_error + db \<times> nat" where
  "bulk_edit_row user_id category_id account_id t su =
     (let s = fst su; updated = snd su;
          (t1, n1) = (case truthy category_id of
                        None \<Rightarrow> (t, updated)
                      | Some c \<Rightarrow>
                          (case own_category s user_id c of
                             None \<Rightarrow> (t, updated)
                           | Some cat \<Rightarrow> (t\<lparr>t_category := Some cat\<rparr>, updated + 1)))
      in case truthy account_id of
           None \<Rightarrow> Inr (s\<lparr>transactions := replace1 t t1 (transactions s)\<rparr>, n1)
         | Some i \<Rightarrow>
             (let old_account = account_of s t in
              case own_account s user_id i of
                None \<Rightarrow> Inr (s\<lparr>transactions := replace1 t t1 (transactions s)\<rparr>, n1)
              | Some new_acc \<Rightarrow>
                  (let s1 = (case old_account of
                               None \<Rightarrow> s
                             | Some old \<Rightarrow>
                                 if old \<noteq> new_acc
                                 then rollback_effect old (t_type t) (t_amount t) s
                                 else s)
                   in case old_account of
                        None \<Rightarrow> Inl AttributeError
                      | Some old \<Rightarrow>
                          (let s2 = (if old \<noteq> new_acc
                                     then apply_effect new_acc (t_type t) (t_amount t) s1
                                     else s1)
                           in Inr (s2\<lparr>transactions :=
                                        replace1 t (t1\<lparr>t_account := Some new_acc\<rparr>)
                                          (transactions s2)\<rparr>, n1 + 1)))))"

fun bulk_edit_loop ::
  "nat \<Rightarrow> nat option \<Rightarrow> nat option \<Rightarrow> Transaction list \<Rightarrow> db \<times> nat \<Rightarrow> py_error + db \<times> nat" where
  "bulk_edit_loop user_id category_id account_id [] su = Inr su"
| "bulk_edit_loop user_id category_id account_id (t # ts) su =
     (case bulk_edit_row user_id category_id account_id t su of
        Inl e \<Rightarrow> Inl e
      | Inr su' \<Rightarrow> bulk_edit_loop user_id category_id account_id ts su')"

text \<open>The \<^verbatim>\<open>except Exception\<close> arm rolls the session back and answers 500.\<close>

definition bulk_edit_transactions ::
  "nat \<Rightarrow> nat list \<Rightarrow> nat option \<Rightarrow> nat option \<Rightarrow> db \<Rightarrow> response \<times> db" where
  "bulk_edit_transactions user_id transaction_ids category_id account_id s =
     (if transaction_ids = [] then (Json_error 400, s)
      else
        case bulk_edit_loop user_id category_id account_id
               (filter (\<lambda>t. t_id t \<in> set transaction_ids \<and> t_user t = user_id)
                  (transactions s)) (s, 0) of
          Inl e \<Rightarrow> (Json_error 500, s)
        | Inr (s', updated) \<Rightarrow> (Json_success updated, s'))"

section \<open>Transfers\<close>

text \<open>
  \<^verbatim>\<open>transfer\<close> (POST): lines 1634-1670. Both select fields offer the caller's active
  accounts. \<^verbatim>\<open>from_acc.id\<close> on a missing row would raise.
\<close>

record TransferForm =
  tf_fields_ok :: bool
  tf_from_account :: nat
  tf_to_account :: nat
  tf_amount :: double
  tf_date :: date

definition transfer :: "nat \<Rightarrow> TransferForm \<Rightarrow> db \<Rightarrow> py_error + response \<times> db" where
  "transfer user_id form s =
     (if tf_fields_ok form \<and> account_choice s user_id (tf_from_account form)
           \<and> account_choice s user_id (tf_to_account form) then
        (case (accounts s (tf_from_account form), accounts s (tf_to_account form)) of
           (Some from_acc, Some to_acc) \<Rightarrow>
             if tf_from_account form = tf_to_account form then Inr (Render, s)
             else if flt (balance from_acc) (tf_amount form) then Inr (Render, s)
             else
               let expense = \<lparr>t_id = new_id (transactions s), t_user = user_id,
                       t_date = tf_date form, t_amount = tf_amount form, t_type = Expense,
                       t_category = None, t_account = Some (tf_from_account form)\<rparr>;
                   income = \<lparr>t_id = new_id (transactions s) + 1, t_user = user_id,
                       t_date = tf_date form, t_amount = tf_amount form, t_type = Income,
                       t_category = None, t_account = Some (tf_to_account form)\<rparr>;
                   s1 = reduce_balance (tf_from_account form) (tf_amount form) s;
                   s2 = adjust_balance (tf_to_account form) (tf_amount form) s1
               in Inr (Redirect, s2\<lparr>transactions := transactions s2 @ [expense, income]\<rparr>)
         | _ \<Rightarrow> Inl AttributeError)
      else Inr (Render, s))"

section \<open>Achievements\<close>

text \<open>\<^verbatim>\<open>achievements\<close>: lines 1735-1756. \<open>now\<close> is what \<^verbatim>\<open>datetime.now()\<close> returns.\<close>

definition total_transactions :: "db \<Rightarrow> nat \<Rightarrow> nat" where
  "total_transactions s user_id = length (filter (\<lambda>t. t_user t = user_id) (transactions s))"

definition days_with_transactions :: "db \<Rightarrow> nat \<Rightarrow> nat" where
  "days_with_transactions s user_id =
     length (remdups (map t_date (filter (\<lambda>t. t_user t = user_id) (transactions s))))"

definition check_achievement :: "instant \<Rightarrow> nat \<Rightarrow> nat \<Rightarrow> Achievement \<Rightarrow> Achievement" where
  "check_achievement now total_n days_n ach =
     (if \<not> is_unlocked ach then
        if condition_type ach = ''transactions_count'' \<and> int total_n \<ge> condition_value ach
        then ach\<lparr>is_unlocked := True, unlocked_at := Some now\<rparr>
        else if condition_type ach = ''days_streak'' \<and> int days_n \<ge> condition_value ach
        then ach\<lparr>is_unlocked := True, unlocked_at := Some now\<rparr>
        else ach
      else ach)"

definition achievements_view :: "nat \<Rightarrow> instant \<Rightarrow> db \<Rightarrow> response \<times> db" where
  "achievements_view user_id now s =
     (let total_n = total_transactions s user_id;
          days_n = days_with_transactions s user_id
      in (Render, s\<lparr>achievements :=
            map (\<lambda>ach. if a_user ach = user_id then check_achievement now total_n days_n ach
                        else ach) (achievements s)\<rparr>))"

text \<open>Proof vocabulary: the balance of an account, what one row adds to an account's sum,
  and the balance net of the linked rows (the account's balance before any of them).\<close>

definition bal :: "db \<Rightarrow> nat \<Rightarrow> int" where
  "bal s a = (case accounts s a of None \<Rightarrow> 0 | Some acc \<Rightarrow> units (balance acc))"

definition contribution :: "Transaction \<Rightarrow> nat \<Rightarrow> int" where
  "contribution t a = (if t_account t = Some a then effect t else 0)"

definition net :: "db \<Rightarrow> nat \<Rightarrow> int" where
  "net s a = bal s a - linked_sum s a"

definition demo_form :: "string \<Rightarrow> double \<Rightarrow> nat \<Rightarrow> TransactionForm" where
  "demo_form ty m acc =
     \<lparr>f_fields_ok = True, f_date = \<lparr>year = 2024, month = 1, day = 15\<rparr>, f_amount = m,
      f_type = ty, f_category = 0, f_account = acc\<rparr>"

definition demo_db :: db where
  "demo_db = empty_db\<lparr>accounts :=
     [1 \<mapsto> \<lparr>acc_user = 1, balance = dbl 100 0, is_active = True\<rparr>,
      2 \<mapsto> \<lparr>acc_user = 1, balance = dbl 40 0, is_active = True\<rparr>,
      3 \<mapsto> \<lparr>acc_user = 2, balance = dbl 500 0, is_active = True\<rparr>]\<rparr>"

text \<open>Two sessions agree on which account rows exist and on who owns each.\<close>

definition same_owners :: "db \<Rightarrow> db \<Rightarrow> bool" where
  "same_owners s s' =
     (\<forall>i. map_option acc_user (accounts s' i) = map_option acc_user (accounts s i))"

definition demo_day :: date where
  "demo_day = \<lparr>year = 2024, month = 1, day = 15\<rparr>"

definition unlinked_db :: db where
  "unlinked_db = demo_db\<lparr>transactions :=
     [\<lparr>t_id = 5, t_user = 1, t_date = demo_day, t_amount = dbl 20 0, t_type = Expense,
       t_category = None, t_account = None\<rparr>]\<rparr>"

definition ach_db :: db where
  "ach_db = demo_db\<lparr>
     transactions :=
       [\<lparr>t_id = 1, t_user = 1, t_date = demo_day, t_amount = dbl 20 0, t_type = Expense,
         t_category = None, t_account = None\<rparr>,
        \<lparr>t_id = 2, t_user = 1, t_date = demo_day, t_amount = dbl 5 0, t_type = Income,
         t_category = None, t_account = None\<rparr>],
     achievements :=
       [\<lparr>a_id = 1, a_user = 1, condition_type = ''transactions_count'',
         condition_value = 2, is_unlocked = False, unlocked_at = None\<rparr>,
        \<lparr>a_id = 2, a_user = 1, condition_type = ''days_streak'',
         condition_value = 1, is_unlocked = True, unlocked_at = Some 3\<rparr>]\<rparr>"

definition demo_transfer :: TransferForm where
  "demo_transfer = \<lparr>tf_fields_ok = True, tf_from_account = 1, tf_to_account = 2,
     tf_amount = dbl 30 0, tf_date = demo_day\<rparr>"

section \<open>Accounts, rules and notifications: the user's own rows\<close>

text \<open>\<^verbatim>\<open>delete_account\<close> (lines 1260-1266) deactivates the caller's account.\<close>

definition delete_account :: "nat \<Rightarrow> nat \<Rightarrow> db \<Rightarrow> response \<times> db" where
  "delete_account user_id acc_id s =
     (case accounts s acc_id of
        None \<Rightarrow> (Abort 404, s)
      | Some acc \<Rightarrow>
          if acc_user acc = user_id
          then (Redirect, s\<lparr>accounts := (accounts s)(acc_id \<mapsto> acc\<lparr>is_active := False\<rparr>)\<rparr>)
          else (Abort 404, s))"

text \<open>\<^verbatim>\<open>recurring_delete\<close> (lines 1145-1151).\<close>

definition recurring_delete :: "nat \<Rightarrow> nat \<Rightarrow> db \<Rightarrow> response \<times> db" where
  "recurring_delete user_id rec_id s =
     (case find (\<lambda>r. r_id r = rec_id \<and> r_user r = user_id) (recurrings s) of
        None \<Rightarrow> (Abort 404, s)
      | Some r \<Rightarrow> (Redirect, s\<lparr>recurrings := remove1 r (recurrings s)\<rparr>))"

text \<open>\<^verbatim>\<open>mark_notification_read\<close> and \<^verbatim>\<open>mark_all_notifications_read\<close> (lines 1715-1729).\<close>

definition mark_notification_read :: "nat \<Rightarrow> nat \<Rightarrow> db \<Rightarrow> response \<times> db" where
  "mark_notification_read user_id notif_id s =
     (case find (\<lambda>n. n_id n = notif_id \<and> n_user n = user_id) (notifications s) of
        None \<Rightarrow> (Abort 404, s)
      | Some notif \<Rightarrow>
          (Redirect, s\<lparr>notifications :=
             replace1 notif (notif\<lparr>n_is_read := True\<rparr>) (notifications s)\<rparr>))"

definition mark_all_notifications_read :: "nat \<Rightarrow> db \<Rightarrow> response \<times> db" where
  "mark_all_notifications_read user_id s =
     (Redirect, s\<lparr>notifications :=
        map (\<lambda>n. if n_user n = user_id then n\<lparr>n_is_read := True\<rparr> else n)
          (notifications s)\<rparr>)"

section \<open>The requests of one user\<close>

text \<open>
  The mutating requests above, as one user sends them. An exception that leaves a view
  (the missing row in \<^verbatim>\<open>transfer\<close>) is answered by the framework with a 500 page and
  nothing is committed.
\<close>

datatype user_request =
    Add_transaction TransactionForm
  | Edit_transaction nat TransactionForm
  | Delete_transaction nat
  | Bulk_edit "nat list" "nat option" "nat option"
  | Bulk_delete "nat list"
  | Transfer TransferForm
  | Delete_account nat
  | Recurring_delete nat
  | Mark_notification_read nat
  | Mark_all_notifications_read

fun serve :: "nat \<Rightarrow> user_request \<Rightarrow> db \<Rightarrow> response \<times> db" where
  "serve user_id (Add_transaction form) s = add_transaction user_id form s"
| "serve user_id (Edit_transaction trans_id form) s = edit_transaction user_id trans_id form s"
| "serve user_id (Delete_transaction trans_id) s = delete_transaction user_id trans_id s"
| "serve user_id (Bulk_edit ids category_id account_id) s =
     bulk_edit_transactions user_id ids category_id account_id s"
| "serve user_id (Bulk_delete ids) s = bulk_delete_transactions user_id ids s"
| "serve user_id (Transfer form) s =
     (case transfer user_id form s of Inl e \<Rightarrow> (Server_error, s) | Inr rs \<Rightarrow> rs)"
| "serve user_id (Delete_account acc_id) s = delete_account user_id acc_id s"
| "serve user_id (Recurring_delete rec_id) s = recurring_delete user_id rec_id s"
| "serve user_id (Mark_notification_read notif_id) s = mark_notification_read user_id notif_id s"
| "serve user_id Mark_all_notifications_read s = mark_all_notifications_read user_id s"

text \<open>
  What one user's request must leave alone: the rows of every other user in the four
  tables, compared row by row in table order.
\<close>

definition others_unchanged :: "nat \<Rightarrow> db \<Rightarrow> db \<Rightarrow> bool" where
  "others_unchanged user_id s s' =
     (filter (\<lambda>t. t_user t \<noteq> user_id) (transactions s')
        = filter (\<lambda>t. t_user t \<noteq> user_id) (transactions s)
      \<and> (\<forall>i a. accounts s i = Some a \<and> acc_user a \<noteq> user_id \<longrightarrow> accounts s' i = Some a)
      \<and> filter (\<lambda>r. r_user r \<noteq> user_id) (recurrings s')
        = filter (\<lambda>r. r_user r \<noteq> user_id) (recurrings s)
      \<and> filter (\<lambda>n. n_user n \<noteq> user_id) (notifications s')
        = filter (\<lambda>n. n_user n \<noteq> user_id) (notifications s))"

text \<open>Every transaction that is linked to an account is linked to one of its own user.\<close>

definition links_owned :: "db \<Rightarrow> bool" where
  "links_owned s =
     (\<forall>t \<in> set (transactions s). \<forall>i a.
        t_account t = Some i \<and> accounts s i = Some a \<longrightarrow> acc_user a = t_user t)"

text \<open>The row ids a request names, per table.\<close>

fun names_foreign_row :: "nat \<Rightarrow> user_request \<Rightarrow> db \<Rightarrow> bool" where
  "names_foreign_row user_id (Edit_transaction trans_id form) s =
     (\<forall>t \<in> set (transactions s). t_id t = trans_id \<longrightarrow> t_user t \<noteq> user_id)"
| "names_foreign_row user_id (Delete_transaction trans_id) s =
     (\<forall>t \<in> set (transactions s). t_id t = trans_id \<longrightarrow> t_user t \<noteq> user_id)"
| "names_foreign_row user_id (Delete_account acc_id) s =
     (case accounts s acc_id of None \<Rightarrow> True | Some a \<Rightarrow> acc_user a \<noteq> user_id)"
| "names_foreign_row user_id (Recurring_delete rec_id) s =
     (\<forall>r \<in> set (recurrings s). r_id r = rec_id \<longrightarrow> r_user r \<noteq> user_id)"
| "names_foreign_row user_id (Mark_notification_read notif_id) s =
     (\<forall>n \<in> set (notifications s). n_id n = notif_id \<longrightarrow> n_user n \<noteq> user_id)"
| "names_foreign_row user_id _ s = False"

definition foreign_db :: db where
  "foreign_db = demo_db\<lparr>transactions :=
     [\<lparr>t_id = 7, t_user = 2, t_date = demo_day, t_amount = dbl 20 0, t_type = Expense,
       t_category = None, t_account = Some 3\<rparr>,
      \<lparr>t_id = 8, t_user = 1, t_date = demo_day, t_amount = dbl 10 0, t_type = Income,
       t_category = None, t_account = Some 1\<rparr>]\<rparr>"

section \<open>Exact ledgers\<close>

text \<open>
  Applying the signed amount of a transaction to a balance, and reversing it: one float
  addition or subtraction each.
\<close>

definition applied :: "TransactionType \<Rightarrow> double \<Rightarrow> double \<Rightarrow> double" where
  "applied ty m b = (if ty = Income then fadd b m else fsub b m)"

definition reversed :: "TransactionType \<Rightarrow> double \<Rightarrow> double \<Rightarrow> double" where
  "reversed ty m b = (if ty = Income then fsub b m else fadd b m)"

text \<open>
  A ledger in whole currency units with every balance and every amount of magnitude at
  most \<open>2^50\<close>, and a sequence of requests that keeps it so: then no addition or
  subtraction of the three views rounds.
\<close>

definition balances_within :: "nat \<Rightarrow> db \<Rightarrow> bool" where
  "balances_within L s = (\<forall>i acc. accounts s i = Some acc \<longrightarrow> within L (balance acc))"

definition small_db :: "db \<Rightarrow> bool" where
  "small_db s =
     (balances_within (2 ^ 50) s \<and> (\<forall>t \<in> set (transactions s). within (2 ^ 50) (t_amount t)))"

fun small_request :: "request \<Rightarrow> bool" where
  "small_request (Add user_id form) = within (2 ^ 50) (f_amount form)"
| "small_request (Edit user_id trans_id form) = within (2 ^ 50) (f_amount form)"
| "small_request (Delete user_id trans_id) = True"

fun within_limits :: "request list \<Rightarrow> db \<Rightarrow> bool" where
  "within_limits [] s = small_db s"
| "within_limits (r # rs) s =
     (small_db s \<and> small_request r \<and> within_limits rs (snd (handle r s)))"

text \<open>
  A ledger in tenths: one account with balance \<open>0.0\<close>; an income of \<open>0.1\<close> and one of
  \<open>0.2\<close> are added and the first is deleted again.
\<close>

definition tenths_db :: db where
  "tenths_db = empty_db\<lparr>accounts :=
     [1 \<mapsto> \<lparr>acc_user = 1, balance = dbl 0 0, is_active = True\<rparr>]\<rparr>"

definition tenths_run :: db where
  "tenths_run =
     run [Add 1 (demo_form ''income'' (dbl 7205759403792794 (- 56)) 1),
          Add 1 (demo_form ''income'' (dbl 7205759403792794 (- 55)) 1),
          Delete 1 1] tenths_db"

text \<open>Three requests of user 1 on \<open>foreign_db\<close>, in whole units.\<close>

definition demo_requests :: "request list" where
  "demo_requests =
     [Add 1 (demo_form ''income'' (dbl 50 0) 1),
      Edit 1 8 (demo_form ''expense'' (dbl 30 0) 1),
      Delete 1 9]"

text \<open>
  Two more ledgers for transfers: \<open>demo_db\<close> with the second account of user 1
  deactivated, and a ledger in tenths with balances \<open>1.1\<close> and \<open>2.2\<close> from which \<open>0.3\<close>
  is moved.
\<close>

definition inact_db :: db where
  "inact_db = demo_db\<lparr>accounts := (accounts demo_db)
     (2 \<mapsto> \<lparr>acc_user = 1, balance = dbl 40 0, is_active = False\<rparr>)\<rparr>"

definition tenths_accounts_db :: db where
  "tenths_accounts_db = empty_db\<lparr>accounts :=
     [1 \<mapsto> \<lparr>acc_user = 1, balance = dbl 4953959590107546 (- 52), is_active = True\<rparr>,
      2 \<mapsto> \<lparr>acc_user = 1, balance = dbl 4953959590107546 (- 51), is_active = True\<rparr>]\<rparr>"

definition tenths_transfer :: TransferForm where
  "tenths_transfer = \<lparr>tf_fields_ok = True, tf_from_account = 1, tf_to_account = 2,
     tf_amount = dbl 5404319552844595 (- 54), tf_date = demo_day\<rparr>"

section \<open>Float lemmas\<close>

lemma bits_0 [simp]: "bits 0 = 0" by (simp add: bits.simps)
lemma bits_1 [simp]: "bits 1 = 1" by (simp add: bits.simps)
lemma bits_Suc_0 [simp]: "bits (Suc 0) = 1" by (simp add: bits.simps)
lemma bits_One [simp]: "bits (numeral Num.One) = 1" by (simp add: bits.simps)
lemma bits_Bit0 [simp]: "bits (numeral (Num.Bit0 k)) = bits (numeral k) + 1"
  by (subst bits.simps) simp
lemma bits_Bit1 [simp]: "bits (numeral (Num.Bit1 k)) = bits (numeral k) + 1"
  by (subst bits.simps) simp

lemma bits_double: "0 < n \<Longrightarrow> bits (2 * n) = Suc (bits n)"
  by (subst bits.simps) simp

lemma bits_mult_pow: "0 < n \<Longrightarrow> bits (n * 2 ^ k) = bits n + k"
proof (induction k)
  case 0
  then show ?case by simp
next
  case (Suc k)
  have "bits (n * 2 ^ Suc k) = bits (2 * (n * 2 ^ k))" by (simp add: mult.commute mult.left_commute)
  also have "\<dots> = Suc (bits (n * 2 ^ k))" using Suc.prems by (intro bits_double) simp
  finally show ?case using Suc by simp
qed

lemma bits_le: "n < 2 ^ k \<Longrightarrow> bits n \<le> k"
proof (induction k arbitrary: n)
  case 0
  then show ?case by simp
next
  case (Suc k)
  show ?case
  proof (cases "n = 0")
    case True
    then show ?thesis by simp
  next
    case False
    have "n div 2 < 2 ^ k" using Suc.prems by auto
    then have "bits (n div 2) \<le> k" by (rule Suc.IH)
    then show ?thesis using False by (subst bits.simps) simp
  qed
qed

lemma round_even_scale: "round_even (n * 2 ^ k) (d + k) = round_even n d"
proof -
  have q: "(n * 2 ^ k) div 2 ^ (d + k) = n div 2 ^ d"
    by (simp add: power_add)
  have r: "(n * 2 ^ k) mod 2 ^ (d + k) = (n mod 2 ^ d) * 2 ^ k"
    by (simp add: power_add)
  have c1: "(2 ^ (d + k) < 2 * ((n mod 2 ^ d) * 2 ^ k)) = ((2::nat) ^ d < 2 * (n mod 2 ^ d))"
    by (simp add: power_add)
  have c2: "(2 * ((n mod 2 ^ d) * 2 ^ k) = 2 ^ (d + k)) = (2 * (n mod 2 ^ d) = (2::nat) ^ d)"
    by (simp add: power_add)
  show ?thesis unfolding round_even_def q r Let_def c1 c2 by simp
qed

lemma round_even_exact: "d \<le> k \<Longrightarrow> round_even (n * 2 ^ k) d = n * 2 ^ (k - d)"
proof -
  assume dk: "d \<le> k"
  have e: "n * 2 ^ k = (n * 2 ^ (k - d)) * 2 ^ d"
    using dk by (simp add: power_add [symmetric])
  have q: "(n * 2 ^ k) div 2 ^ d = n * 2 ^ (k - d)" unfolding e by simp
  have r: "(n * 2 ^ k) mod 2 ^ d = 0" unfolding e by simp
  show ?thesis unfolding round_even_def q r Let_def by simp
qed

lemma round53_small: "bits n \<le> 53 \<Longrightarrow> round53 n = n"
  by (simp add: round53_def round_even_def)

lemma round53_scale: "round53 (n * 2 ^ k) = round53 n * 2 ^ k"
proof (cases "n = 0")
  case True
  then show ?thesis by (simp add: round53_def round_even_def)
next
  case False
  then have b: "bits (n * 2 ^ k) = bits n + k" by (simp add: bits_mult_pow)
  show ?thesis
  proof (cases "53 \<le> bits n")
    case True
    then have d: "bits n + k - 53 = (bits n - 53) + k" by simp
    show ?thesis
      unfolding round53_def Let_def b d round_even_scale by (simp add: power_add)
  next
    case False
    then have s: "round53 n = n" by (simp add: round53_small)
    have dk: "bits n + k - 53 \<le> k" using False by simp
    have "round_even (n * 2 ^ k) (bits n + k - 53) * 2 ^ (bits n + k - 53) = n * 2 ^ k"
      unfolding round_even_exact [OF dk] using dk by (simp add: power_add [symmetric])
    then show ?thesis unfolding s by (simp add: round53_def b)
  qed
qed


lemma of_units_scale:
  "of_units sg (n * 2 ^ k) =
     (if 2 ^ 2098 \<le> round53 n * 2 ^ k then Infinity sg else Finite sg (round53 n * 2 ^ k))"
  by (simp add: of_units_def round53_scale)

lemma fadd_scaled:
  "fadd (Finite s1 (a * 2 ^ k)) (Finite s2 (b * 2 ^ k)) =
     (if signed s1 a + signed s2 b = 0 then Finite (s1 \<and> s2) 0
      else of_units (signed s1 a + signed s2 b < 0) (nat \<bar>signed s1 a + signed s2 b\<bar> * 2 ^ k))"
proof -
  have t: "signed s1 (a * 2 ^ k) + signed s2 (b * 2 ^ k) = (signed s1 a + signed s2 b) * 2 ^ k"
    by (simp add: signed_def algebra_simps)
  have z: "((signed s1 a + signed s2 b) * 2 ^ k = 0) = (signed s1 a + signed s2 b = 0)"
    by simp
  have n: "((signed s1 a + signed s2 b) * 2 ^ k < 0) = (signed s1 a + signed s2 b < 0)"
    by (simp add: mult_less_0_iff)
  have m: "nat \<bar>(signed s1 a + signed s2 b) * 2 ^ k\<bar> = nat \<bar>signed s1 a + signed s2 b\<bar> * 2 ^ k"
    by (simp add: abs_mult nat_mult_distrib)
  show ?thesis by (simp add: Let_def t z n m del: of_nat_mult of_nat_power)
qed

lemma dbl_align:
  "- 1074 \<le> e \<Longrightarrow> e \<le> e1 \<Longrightarrow>
   dbl m e1 = Finite False ((m * 2 ^ nat (e1 - e)) * 2 ^ nat (e + 1074))"
proof -
  assume a: "- 1074 \<le> e" "e \<le> e1"
  have "nat (e1 + 1074) = nat (e1 - e) + nat (e + 1074)" using a by simp
  then show ?thesis by (simp add: dbl_def power_add)
qed

lemma fadd_pos:
  "fadd (Finite False (a * 2 ^ k)) (Finite False (b * 2 ^ k)) =
     (if a + b = 0 then Finite False 0 else of_units False ((a + b) * 2 ^ k))"
  unfolding fadd_scaled by (simp add: signed_def nat_int_add)

lemma fsub_pos:
  assumes "b \<le> a"
  shows "fsub (Finite False (a * 2 ^ k)) (Finite False (b * 2 ^ k)) =
     (if a = b then Finite False 0 else of_units False ((a - b) * 2 ^ k))"
proof -
  have s: "signed False a + signed True b = int a - int b" by (simp add: signed_def)
  have z: "(int a - int b = 0) = (a = b)" by auto
  have l: "(int a - int b < 0) = False" using assms by simp
  have n: "nat \<bar>int a - int b\<bar> = a - b" using assms by linarith
  have "fsub (Finite False (a * 2 ^ k)) (Finite False (b * 2 ^ k))
          = fadd (Finite False (a * 2 ^ k)) (Finite True (b * 2 ^ k))"
    by (simp add: fsub_def)
  also have "\<dots> = (if a = b then Finite False 0 else of_units False ((a - b) * 2 ^ k))"
    unfolding fadd_scaled s z l n by simp
  finally show ?thesis .
qed

lemma round53_0 [simp]: "round53 0 = 0"
  by (simp add: round53_def round_even_def)

lemma of_units_dbl:
  assumes "- 1074 \<le> e" "e \<le> 1024" "round53 n < 2 ^ nat (1024 - e)"
  shows "of_units False (n * 2 ^ nat (e + 1074)) = dbl (round53 n) e"
proof -
  have "nat (1024 - e) + nat (e + 1074) = 2098" using assms by simp
  then have p: "(2::nat) ^ 2098 = 2 ^ nat (1024 - e) * 2 ^ nat (e + 1074)"
    by (simp only: power_add [symmetric])
  have "round53 n * 2 ^ nat (e + 1074) < 2 ^ nat (1024 - e) * 2 ^ nat (e + 1074)"
    using assms(3) by simp
  then have "\<not> 2 ^ 2098 \<le> round53 n * 2 ^ nat (e + 1074)" unfolding p by simp
  then show ?thesis unfolding of_units_scale dbl_def by simp
qed

lemma fadd_dbl:
  assumes "- 1074 \<le> e" "e \<le> e1" "e \<le> e2" "e \<le> 1024"
    and "round53 (m1 * 2 ^ nat (e1 - e) + m2 * 2 ^ nat (e2 - e)) < 2 ^ nat (1024 - e)"
  shows "fadd (dbl m1 e1) (dbl m2 e2)
           = dbl (round53 (m1 * 2 ^ nat (e1 - e) + m2 * 2 ^ nat (e2 - e))) e"
proof -
  define a where "a = m1 * 2 ^ nat (e1 - e)"
  define b where "b = m2 * 2 ^ nat (e2 - e)"
  have x: "dbl m1 e1 = Finite False (a * 2 ^ nat (e + 1074))"
    unfolding a_def using assms by (intro dbl_align) simp_all
  have y: "dbl m2 e2 = Finite False (b * 2 ^ nat (e + 1074))"
    unfolding b_def using assms by (intro dbl_align) simp_all
  have r: "round53 (a + b) < 2 ^ nat (1024 - e)" using assms(5) by (simp add: a_def b_def)
  have "fadd (dbl m1 e1) (dbl m2 e2) = dbl (round53 (a + b)) e"
  proof (cases "a + b = 0")
    case True
    then show ?thesis unfolding x y fadd_pos by (simp add: dbl_def)
  next
    case False
    then show ?thesis
      unfolding x y fadd_pos using of_units_dbl [OF assms(1) assms(4) r] by auto
  qed
  then show ?thesis by (simp add: a_def b_def)
qed

lemma fsub_dbl:
  assumes "- 1074 \<le> e" "e \<le> e1" "e \<le> e2" "e \<le> 1024"
    and "m2 * 2 ^ nat (e2 - e) \<le> m1 * 2 ^ nat (e1 - e)"
    and "round53 (m1 * 2 ^ nat (e1 - e) - m2 * 2 ^ nat (e2 - e)) < 2 ^ nat (1024 - e)"
  shows "fsub (dbl m1 e1) (dbl m2 e2)
           = dbl (round53 (m1 * 2 ^ nat (e1 - e) - m2 * 2 ^ nat (e2 - e))) e"
proof -
  define a where "a = m1 * 2 ^ nat (e1 - e)"
  define b where "b = m2 * 2 ^ nat (e2 - e)"
  have x: "dbl m1 e1 = Finite False (a * 2 ^ nat (e + 1074))"
    unfolding a_def using assms by (intro dbl_align) simp_all
  have y: "dbl m2 e2 = Finite False (b * 2 ^ nat (e + 1074))"
    unfolding b_def using assms by (intro dbl_align) simp_all
  have ba: "b \<le> a" using assms(5) by (simp add: a_def b_def)
  have r: "round53 (a - b) < 2 ^ nat (1024 - e)" using assms(6) by (simp add: a_def b_def)
  have "fsub (dbl m1 e1) (dbl m2 e2) = dbl (round53 (a - b)) e"
  proof (cases "a = b")
    case True
    then show ?thesis unfolding x y fsub_pos [OF ba] by (simp add: dbl_def)
  next
    case False
    then show ?thesis
      unfolding x y fsub_pos [OF ba] using of_units_dbl [OF assms(1) assms(4) r] by auto
  qed
  then show ?thesis by (simp add: a_def b_def)
qed

lemma flt_dbl:
  assumes "- 1074 \<le> e" "e \<le> e1" "e \<le> e2"
  shows "flt (dbl m1 e1) (dbl m2 e2) = (m1 * 2 ^ nat (e1 - e) < m2 * 2 ^ nat (e2 - e))"
proof -
  have x: "dbl m1 e1 = Finite False ((m1 * 2 ^ nat (e1 - e)) * 2 ^ nat (e + 1074))"
    using assms by (intro dbl_align) simp_all
  have y: "dbl m2 e2 = Finite False ((m2 * 2 ^ nat (e2 - e)) * 2 ^ nat (e + 1074))"
    using assms by (intro dbl_align) simp_all
  show ?thesis unfolding x y by (simp add: signed_def del: of_nat_mult of_nat_power)
qed

lemma signed_scale: "signed sg (n * 2 ^ k) = signed sg n * 2 ^ k"
  by (simp add: signed_def)

lemma signed_abs: "nat \<bar>signed sg n\<bar> = n"
  by (simp add: signed_def)

lemma fadd_exact_scaled:
  assumes "nat \<bar>signed s1 a + signed s2 b\<bar> < 2 ^ 53" "k + 53 \<le> 2098"
  shows "\<exists>sg. fadd (Finite s1 (a * 2 ^ k)) (Finite s2 (b * 2 ^ k))
                 = Finite sg (nat \<bar>signed s1 a + signed s2 b\<bar> * 2 ^ k)
             \<and> signed sg (nat \<bar>signed s1 a + signed s2 b\<bar>) = signed s1 a + signed s2 b"
proof -
  define t where "t = signed s1 a + signed s2 b"
  define n where "n = nat \<bar>t\<bar>"
  have n53: "n < 2 ^ 53" using assms(1) by (simp add: n_def t_def)
  show ?thesis
  proof (cases "t = 0")
    case True
    then show ?thesis unfolding fadd_scaled t_def [symmetric] by (simp add: signed_def)
  next
    case False
    have r: "round53 n = n" using n53 by (intro round53_small bits_le)
    have "n * 2 ^ k < 2 ^ 53 * 2 ^ k" using n53 by simp
    also have "\<dots> = (2::nat) ^ (k + 53)" by (simp only: power_add mult.commute)
    also have "\<dots> \<le> 2 ^ 2098" using assms(2) by (intro power_increasing) simp_all
    finally have ov: "\<not> 2 ^ 2098 \<le> round53 n * 2 ^ k" unfolding r by simp
    have "fadd (Finite s1 (a * 2 ^ k)) (Finite s2 (b * 2 ^ k)) = Finite (t < 0) (n * 2 ^ k)"
      unfolding fadd_scaled t_def [symmetric] n_def [symmetric] of_units_scale
      using False ov r by simp
    moreover have "signed (t < 0) n = t" by (simp add: signed_def n_def)
    ultimately show ?thesis unfolding t_def [symmetric] n_def [symmetric] by blast
  qed
qed

lemma withinE:
  assumes "within L x"
  obtains sg a where "x = Finite sg (a * 2 ^ 1074)" "a \<le> L"
proof (cases x)
  case (Finite sg n)
  have m: "n mod 2 ^ 1074 = 0" and d: "n div 2 ^ 1074 \<le> L"
    using assms unfolding Finite within_def by simp_all
  have "n = (n div 2 ^ 1074) * 2 ^ 1074" using m by (metis add.right_neutral div_mult_mod_eq)
  then show ?thesis using that [of sg "n div 2 ^ 1074"] Finite d by simp
next
  case (Infinity sg)
  then show ?thesis using assms by (simp add: within_def)
next
  case NaN
  then show ?thesis using assms by (simp add: within_def)
qed

lemma within_scaled: "a \<le> L \<Longrightarrow> within L (Finite sg (a * 2 ^ 1074))"
  unfolding within_def by simp

lemma within_mono: "within L x \<Longrightarrow> L \<le> L' \<Longrightarrow> within L' x"
  unfolding within_def by (cases x) simp_all

lemma within_fneg: "within L (fneg x) = within L x"
  unfolding within_def by (cases x) simp_all

lemma units_fneg: "units (fneg x) = - units x"
  by (cases x) (simp_all add: signed_def)

lemma fadd_within:
  assumes "within L1 x" "within L2 y" "L1 + L2 < 2 ^ 53"
  shows "within (L1 + L2) (fadd x y) \<and> units (fadd x y) = units x + units y"
proof -
  obtain s1 a where x: "x = Finite s1 (a * 2 ^ 1074)" and a: "a \<le> L1"
    using assms(1) by (rule withinE)
  obtain s2 b where y: "y = Finite s2 (b * 2 ^ 1074)" and b: "b \<le> L2"
    using assms(2) by (rule withinE)
  define n where "n = nat \<bar>signed s1 a + signed s2 b\<bar>"
  have "n \<le> a + b" unfolding n_def signed_def by (cases s1; cases s2) (simp; linarith)+
  then have nl: "n \<le> L1 + L2" using a b by simp
  then have n53: "n < 2 ^ 53" using assms(3) by simp
  obtain sg where f: "fadd x y = Finite sg (n * 2 ^ 1074)"
    and sg: "signed sg n = signed s1 a + signed s2 b"
    using fadd_exact_scaled [of s1 a s2 b 1074] n53 unfolding x y n_def by auto
  have "within (L1 + L2) (fadd x y)" unfolding f using nl by (rule within_scaled)
  moreover have "units (fadd x y) = units x + units y"
  proof -
    have u: "units (fadd x y) = (signed s1 a + signed s2 b) * 2 ^ 1074"
      by (simp only: f units.simps signed_scale sg)
    have ux: "units x = signed s1 a * 2 ^ 1074" by (simp only: x units.simps signed_scale)
    have uy: "units y = signed s2 b * 2 ^ 1074" by (simp only: y units.simps signed_scale)
    show ?thesis by (simp only: u ux uy distrib_right)
  qed
  ultimately show ?thesis by simp
qed

lemma fsub_within:
  assumes "within L1 x" "within L2 y" "L1 + L2 < 2 ^ 53"
  shows "within (L1 + L2) (fsub x y) \<and> units (fsub x y) = units x - units y"
  using fadd_within [of L1 x L2 "fneg y"] assms
  by (simp add: fsub_def within_fneg units_fneg)

lemma fadd_dbl0: "m1 + m2 < 2 ^ 53 \<Longrightarrow> fadd (dbl m1 0) (dbl m2 0) = dbl (m1 + m2) 0"
proof -
  assume a: "m1 + m2 < 2 ^ 53"
  have r: "round53 (m1 + m2) = m1 + m2" using a by (intro round53_small bits_le)
  have "(2::nat) ^ 53 \<le> 2 ^ 1024" by (rule power_increasing) simp_all
  then have "m1 + m2 < 2 ^ 1024" using a by (rule less_le_trans [rotated])
  then have h: "round53 (m1 * 2 ^ nat (0 - 0) + m2 * 2 ^ nat (0 - 0)) < 2 ^ nat (1024 - 0)"
    by (simp only: r diff_zero nat_0 power_0 mult_1_right nat_numeral)
  have "fadd (dbl m1 0) (dbl m2 0) = dbl (round53 (m1 * 2 ^ nat (0 - 0) + m2 * 2 ^ nat (0 - 0))) 0"
    by (rule fadd_dbl [OF _ _ _ _ h]) simp_all
  then show ?thesis by (simp only: r diff_zero nat_0 power_0 mult_1_right)
qed


lemma fsub_dbl0:
  "m2 \<le> m1 \<Longrightarrow> m1 < 2 ^ 53 \<Longrightarrow> fsub (dbl m1 0) (dbl m2 0) = dbl (m1 - m2) 0"
proof -
  assume a: "m2 \<le> m1" "m1 < 2 ^ 53"
  have lt: "m1 - m2 < 2 ^ 53" using a(2) by (rule le_less_trans [rotated]) simp
  have r: "round53 (m1 - m2) = m1 - m2" using lt by (intro round53_small bits_le)
  have "(2::nat) ^ 53 \<le> 2 ^ 1024" by (rule power_increasing) simp_all
  then have "m1 - m2 < 2 ^ 1024" using lt by (rule less_le_trans [rotated])
  then have h: "round53 (m1 * 2 ^ nat (0 - 0) - m2 * 2 ^ nat (0 - 0)) < 2 ^ nat (1024 - 0)"
    by (simp only: r diff_zero nat_0 power_0 mult_1_right nat_numeral)
  have g: "m2 * 2 ^ nat (0 - 0) \<le> m1 * 2 ^ nat (0 - 0)"
    using a(1) by (simp only: diff_zero nat_0 power_0 mult_1_right)
  have "fsub (dbl m1 0) (dbl m2 0)
          = dbl (round53 (m1 * 2 ^ nat (0 - 0) - m2 * 2 ^ nat (0 - 0))) 0"
    by (rule fsub_dbl [OF _ _ _ _ g h]) simp_all
  then show ?thesis by (simp only: r diff_zero nat_0 power_0 mult_1_right)
qed

lemma within_dbl0: "m \<le> L \<Longrightarrow> within L (dbl m 0)"
proof -
  assume "m \<le> L"
  then have "within L (Finite False (m * 2 ^ 1074))" by (rule within_scaled)
  moreover have "nat (0 + 1074) = 1074" by simp
  ultimately show ?thesis by (simp only: dbl_def)
qed

lemma units_dbl0: "units (dbl m 0) = int m * 2 ^ 1074"
proof -
  have "nat (0 + 1074) = 1074" by simp
  then show ?thesis by (simp only: dbl_def units.simps signed_scale) (simp only: signed_def if_False)
qed

section \<open>Ledger lemmas\<close>

lemma adjust_transactions [simp]: "transactions (adjust_balance i d s) = transactions s"
  by (simp add: adjust_balance_def split: option.splits)

lemma reduce_transactions [simp]: "transactions (reduce_balance i d s) = transactions s"
  by (simp add: reduce_balance_def split: option.splits)

lemma adjust_dom [simp]: "dom (accounts (adjust_balance i d s)) = dom (accounts s)"
  by (auto simp: adjust_balance_def split: option.splits)

lemma reduce_dom [simp]: "dom (accounts (reduce_balance i d s)) = dom (accounts s)"
  by (auto simp: reduce_balance_def split: option.splits)

lemma find_in_set: "find P xs = Some x \<Longrightarrow> x \<in> set xs"
  by (induction xs) (auto split: if_splits)

lemma find_holds: "find P xs = Some x \<Longrightarrow> P x"
  by (induction xs) (auto split: if_splits)

lemma rollback_transactions [simp]:
  "transactions (rollback_effect i ty m s) = transactions s"
  by (simp add: rollback_effect_def)

lemma apply_transactions [simp]: "transactions (apply_effect i ty m s) = transactions s"
  by (simp add: apply_effect_def)

lemma rollback_dom [simp]: "dom (accounts (rollback_effect i ty m s)) = dom (accounts s)"
  by (simp add: rollback_effect_def)

lemma apply_dom [simp]: "dom (accounts (apply_effect i ty m s)) = dom (accounts s)"
  by (simp add: apply_effect_def)

lemma get_account_eq:
  "get_account s i = (if i \<in> dom (accounts s) then Some i else None)"
  by (auto simp: get_account_def split: option.splits)

lemma account_choice_Some:
  "account_choice s u i \<Longrightarrow> \<exists>a. accounts s i = Some a \<and> is_active a \<and> acc_user a = u"
  by (auto simp: account_choice_def split: option.splits)

section \<open>Bulk edit and achievements\<close>

lemma same_owners_refl [simp]: "same_owners s s"
  by (simp add: same_owners_def)

lemma same_owners_trans: "same_owners s s' \<Longrightarrow> same_owners s' s'' \<Longrightarrow> same_owners s s''"
  by (simp add: same_owners_def)

lemma same_owners_adjust [simp]: "same_owners s (adjust_balance i d s)"
  by (auto simp: same_owners_def adjust_balance_def split: option.splits)

lemma same_owners_reduce [simp]: "same_owners s (reduce_balance i d s)"
  by (auto simp: same_owners_def reduce_balance_def split: option.splits)

lemma same_owners_rollback [simp]: "same_owners s (rollback_effect i ty m s)"
  by (simp add: rollback_effect_def)

lemma same_owners_apply [simp]: "same_owners s (apply_effect i ty m s)"
  by (simp add: apply_effect_def)

lemma same_owners_transactions [simp]:
  "same_owners s (s'\<lparr>transactions := ts\<rparr>) = same_owners s s'"
  by (simp add: same_owners_def)

lemma same_owners_cases:
  assumes "same_owners s s'"
  shows "(accounts s i = None \<and> accounts s' i = None)
       \<or> (\<exists>x y. accounts s i = Some x \<and> accounts s' i = Some y \<and> acc_user y = acc_user x)"
proof -
  have "map_option acc_user (accounts s' i) = map_option acc_user (accounts s i)"
    using assms by (simp add: same_owners_def)
  then show ?thesis by (cases "accounts s i"; cases "accounts s' i") auto
qed

lemma same_owners_own_account:
  "same_owners s s' \<Longrightarrow> own_account s' u i = own_account s u i"
  using same_owners_cases [of s s' i] by (auto simp: own_account_def)

lemma same_owners_account_of:
  "same_owners s s' \<Longrightarrow> account_of s' t = account_of s t"
proof (cases "t_account t")
  case None
  then show ?thesis by (simp add: account_of_def)
next
  case (Some i)
  assume "same_owners s s'"
  then show ?thesis
    using Some same_owners_cases [of s s' i] by (auto simp: account_of_def get_account_def)
qed

lemma bulk_edit_row_owners:
  "bulk_edit_row u c a t su = Inr su' \<Longrightarrow> same_owners (fst su) (fst su')"
  by (auto simp: bulk_edit_row_def Let_def split: option.splits if_splits prod.splits
        intro: same_owners_trans [OF same_owners_rollback same_owners_apply])

lemma bulk_edit_row_fails:
  "truthy a = Some i \<Longrightarrow> own_account (fst su) u i = Some j \<Longrightarrow>
   account_of (fst su) t = None \<Longrightarrow> bulk_edit_row u c a t su = Inl AttributeError"
  by (auto simp: bulk_edit_row_def Let_def split: option.splits prod.splits)

lemma bulk_edit_loop_fails:
  "truthy a = Some i \<Longrightarrow> own_account (fst su) u i = Some j \<Longrightarrow> t \<in> set rows \<Longrightarrow>
   account_of (fst su) t = None \<Longrightarrow> bulk_edit_loop u c a rows su = Inl AttributeError"
proof (induction rows arbitrary: su)
  case Nil
  then show ?case by simp
next
  case (Cons r rows)
  show ?case
  proof (cases "bulk_edit_row u c a r su")
    case (Inl e)
    then show ?thesis by (cases e) simp
  next
    case (Inr su')
    have so: "same_owners (fst su) (fst su')" using Inr by (rule bulk_edit_row_owners)
    have "r \<noteq> t" using Inr Cons.prems bulk_edit_row_fails [of a i su u j t c] by auto
    then have "t \<in> set rows" using Cons.prems by simp
    moreover have "own_account (fst su') u i = Some j"
      using so Cons.prems by (simp add: same_owners_own_account)
    moreover have "account_of (fst su') t = None"
      using so Cons.prems by (simp add: same_owners_account_of)
    ultimately have "bulk_edit_loop u c a rows su' = Inl AttributeError"
      using Cons.IH Cons.prems(1) by blast
    then show ?thesis using Inr by simp
  qed
qed

text \<open>
  C10. \<^verbatim>\<open>bulk_edit_transactions\<close> fails on a None dereference: when the request names a
  target account (a truthy \<^verbatim>\<open>account_id\<close> that resolves to an account of the caller, so
  that \<^verbatim>\<open>if new_acc:\<close> is entered) and one of the selected rows of the caller has no
  linked account, the comparison \<^verbatim>\<open>old_account.id != new_acc.id\<close> raises; the handler
  rolls back and answers 500, and the session is exactly what it was.
\<close>

theorem bulk_edit_none_dereference:
  assumes "transaction_ids \<noteq> []"
    and "truthy account_id = Some i"
    and "own_account s user_id i = Some i"
    and "t \<in> set (transactions s)"
    and "t_id t \<in> set transaction_ids"
    and "t_user t = user_id"
    and "account_of s t = None"
  shows "bulk_edit_transactions user_id transaction_ids category_id account_id s
           = (Json_error 500, s)"
proof -
  have "t \<in> set (filter (\<lambda>t. t_id t \<in> set transaction_ids \<and> t_user t = user_id)
                  (transactions s))"
    using assms by simp
  then have "bulk_edit_loop user_id category_id account_id
               (filter (\<lambda>t. t_id t \<in> set transaction_ids \<and> t_user t = user_id)
                  (transactions s)) (s, 0) = Inl AttributeError"
    using assms bulk_edit_loop_fails [of account_id i "(s, 0)" user_id i t] by simp
  then show ?thesis using assms(1) by (simp add: bulk_edit_transactions_def)
qed

theorem bulk_edit_none_dereference_witness:
  "[5] \<noteq> ([] :: nat list)
   \<and> truthy (Some 1) = Some 1
   \<and> own_account unlinked_db 1 1 = Some 1
   \<and> hd (transactions unlinked_db) \<in> set (transactions unlinked_db)
   \<and> t_id (hd (transactions unlinked_db)) \<in> set [5]
   \<and> t_user (hd (transactions unlinked_db)) = 1
   \<and> account_of unlinked_db (hd (transactions unlinked_db)) = None
   \<and> bulk_edit_transactions 1 [5] None (Some 1) unlinked_db = (Json_error 500, unlinked_db)"
proof -
  have h2: "truthy (Some 1) = Some 1" by (simp add: truthy_def)
  have h3: "own_account unlinked_db 1 1 = Some 1"
    by (simp add: own_account_def unlinked_db_def demo_db_def empty_db_def)
  have h4: "hd (transactions unlinked_db) \<in> set (transactions unlinked_db)"
    by (simp add: unlinked_db_def)
  have h5: "t_id (hd (transactions unlinked_db)) \<in> set [5]"
    by (simp add: unlinked_db_def)
  have h6: "t_user (hd (transactions unlinked_db)) = 1"
    by (simp add: unlinked_db_def)
  have h7: "account_of unlinked_db (hd (transactions unlinked_db)) = None"
    by (simp add: unlinked_db_def account_of_def)
  have "bulk_edit_transactions 1 [5] None (Some 1) unlinked_db = (Json_error 500, unlinked_db)"
    using bulk_edit_none_dereference [of "[5]" "Some 1" 1 unlinked_db 1
        "hd (transactions unlinked_db)" None] h2 h3 h4 h5 h6 h7
    by simp
  then show ?thesis using h2 h3 h4 h5 h6 h7 by simp
qed

text \<open>
  C8. Opening the achievements page at instant \<open>now\<close>: a locked achievement of the user
  whose counter meets \<open>condition_value\<close> (the number of the user's transactions for
  \<^verbatim>\<open>transactions_count\<close>, the number of distinct days with transactions for
  \<^verbatim>\<open>days_streak\<close>) becomes unlocked with \<open>unlocked_at = now\<close>; an achievement that is
  already unlocked is left exactly as it is, so it never reverts and evaluating again
  does nothing to it.
\<close>

theorem achievements_unlock:
  assumes "k < length (achievements s)"
  shows "length (achievements (snd (achievements_view user_id now s)))
           = length (achievements s)
    \<and> (a_user (achievements s ! k) = user_id \<and> \<not> is_unlocked (achievements s ! k)
         \<and> (condition_type (achievements s ! k) = ''transactions_count''
               \<and> condition_value (achievements s ! k) \<le> int (total_transactions s user_id)
            \<or> condition_type (achievements s ! k) = ''days_streak''
               \<and> condition_value (achievements s ! k)
                    \<le> int (days_with_transactions s user_id))
        \<longrightarrow> achievements (snd (achievements_view user_id now s)) ! k
              = (achievements s ! k)\<lparr>is_unlocked := True, unlocked_at := Some now\<rparr>)
    \<and> (is_unlocked (achievements s ! k)
        \<longrightarrow> achievements (snd (achievements_view user_id now s)) ! k
              = achievements s ! k)"
  using assms by (auto simp: achievements_view_def Let_def check_achievement_def)

theorem achievements_unlock_witness:
  "(0::nat) < length (achievements ach_db) \<and> (1::nat) < length (achievements ach_db)
   \<and> total_transactions ach_db 1 = 2 \<and> days_with_transactions ach_db 1 = 1
   \<and> achievements (snd (achievements_view 1 77 ach_db)) ! 0
       = \<lparr>a_id = 1, a_user = 1, condition_type = ''transactions_count'',
          condition_value = 2, is_unlocked = True, unlocked_at = Some 77\<rparr>
   \<and> achievements (snd (achievements_view 1 77 ach_db)) ! 1
       = \<lparr>a_id = 2, a_user = 1, condition_type = ''days_streak'',
          condition_value = 1, is_unlocked = True, unlocked_at = Some 3\<rparr>"
proof -
  have k0: "(0::nat) < length (achievements ach_db)" by (simp add: ach_db_def)
  have k1: "(1::nat) < length (achievements ach_db)" by (simp add: ach_db_def)
  have c: "total_transactions ach_db 1 = 2" "days_with_transactions ach_db 1 = 1"
    by (simp_all add: ach_db_def total_transactions_def days_with_transactions_def)
  show ?thesis
    using k0 k1 c achievements_unlock [OF k0, of 1 77] achievements_unlock [OF k1, of 1 77]
    by (simp add: ach_db_def)
qed

section \<open>Exact ledgers: the balance invariant\<close>

lemma reduce_adjust: "reduce_balance i d s = adjust_balance i (fneg d) s"
  by (simp add: reduce_balance_def adjust_balance_def fsub_def split: option.splits)

lemma bw_transactions [simp]: "balances_within L (s\<lparr>transactions := ts\<rparr>) = balances_within L s"
  by (simp add: balances_within_def)

lemma bw_mono: "balances_within L s \<Longrightarrow> L \<le> L' \<Longrightarrow> balances_within L' s"
  unfolding balances_within_def using within_mono by blast

lemma bw_adjust:
  assumes "balances_within L1 s" "within L2 d" "L1 + L2 < 2 ^ 53"
  shows "balances_within (L1 + L2) (adjust_balance i d s)"
proof (cases "accounts s i")
  case None
  then show ?thesis using assms(1) by (simp add: adjust_balance_def bw_mono)
next
  case (Some acc)
  have w: "within L1 (balance acc)" using assms(1) Some by (simp add: balances_within_def)
  have f: "within (L1 + L2) (fadd (balance acc) d)"
    using fadd_within [OF w assms(2) assms(3)] by simp
  have o: "\<And>j b. accounts s j = Some b \<Longrightarrow> within (L1 + L2) (balance b)"
    using assms(1) within_mono [of L1 _ "L1 + L2"] by (simp add: balances_within_def)
  show ?thesis
    unfolding balances_within_def adjust_balance_def using Some f o by auto
qed

lemma adjust_bal:
  assumes "balances_within L1 s" "within L2 d" "L1 + L2 < 2 ^ 53"
  shows "bal (adjust_balance i d s) a =
     (if a = i \<and> a \<in> dom (accounts s) then bal s a + units d else bal s a)"
proof (cases "accounts s i")
  case None
  then show ?thesis by (auto simp: adjust_balance_def bal_def)
next
  case (Some acc)
  have w: "within L1 (balance acc)" using assms(1) Some by (simp add: balances_within_def)
  have f: "units (fadd (balance acc) d) = units (balance acc) + units d"
    using fadd_within [OF w assms(2) assms(3)] by simp
  show ?thesis using Some f by (auto simp: adjust_balance_def bal_def)
qed

lemma net_adjust:
  assumes "balances_within L1 s" "within L2 d" "L1 + L2 < 2 ^ 53"
  shows "net (adjust_balance i d s) a =
     net s a + (if a = i \<and> a \<in> dom (accounts s) then units d else 0)"
  by (cases "a = i \<and> a \<in> dom (accounts s)")
     (auto simp: net_def adjust_bal [OF assms] linked_sum_def)

lemma bw_reduce:
  assumes "balances_within L1 s" "within L2 d" "L1 + L2 < 2 ^ 53"
  shows "balances_within (L1 + L2) (reduce_balance i d s)"
  unfolding reduce_adjust using assms by (intro bw_adjust) (simp_all add: within_fneg)

lemma net_reduce:
  assumes "balances_within L1 s" "within L2 d" "L1 + L2 < 2 ^ 53"
  shows "net (reduce_balance i d s) a =
     net s a - (if a = i \<and> a \<in> dom (accounts s) then units d else 0)"
proof -
  have w: "within L2 (fneg d)" using assms(2) by (simp add: within_fneg)
  show ?thesis unfolding reduce_adjust net_adjust [OF assms(1) w assms(3)]
    by (auto simp: units_fneg)
qed

lemma bw_rollback:
  "balances_within L1 s \<Longrightarrow> within L2 m \<Longrightarrow> L1 + L2 < 2 ^ 53 \<Longrightarrow>
   balances_within (L1 + L2) (rollback_effect i ty m s)"
  by (simp add: rollback_effect_def bw_adjust bw_reduce)

lemma bw_apply:
  "balances_within L1 s \<Longrightarrow> within L2 m \<Longrightarrow> L1 + L2 < 2 ^ 53 \<Longrightarrow>
   balances_within (L1 + L2) (apply_effect i ty m s)"
  by (simp add: apply_effect_def bw_adjust bw_reduce)

lemma net_rollback:
  assumes "balances_within L1 s" "within L2 m" "L1 + L2 < 2 ^ 53"
  shows "net (rollback_effect i ty m s) a
     = net s a - (if a = i \<and> a \<in> dom (accounts s)
                  then (if ty = Income then units m else - units m) else 0)"
  by (cases "a = i \<and> a \<in> dom (accounts s)")
     (auto simp: rollback_effect_def net_adjust [OF assms] net_reduce [OF assms])

lemma net_apply:
  assumes "balances_within L1 s" "within L2 m" "L1 + L2 < 2 ^ 53"
  shows "net (apply_effect i ty m s) a
     = net s a + (if a = i \<and> a \<in> dom (accounts s)
                  then (if ty = Income then units m else - units m) else 0)"
  by (cases "a = i \<and> a \<in> dom (accounts s)")
     (auto simp: apply_effect_def net_adjust [OF assms] net_reduce [OF assms])

lemma sum_replace1:
  "x \<in> set xs \<Longrightarrow>
   sum_list (map g (replace1 x y xs)) = sum_list (map g xs) - g x + (g y :: int)"
  by (induction xs) auto

lemma sum_remove1:
  "x \<in> set xs \<Longrightarrow> sum_list (map g (remove1 x xs)) = sum_list (map g xs) - (g x :: int)"
  by (induction xs) auto

lemma net_append:
  "net (s\<lparr>transactions := transactions s @ [t]\<rparr>) a = net s a - contribution t a"
  by (simp add: net_def bal_def linked_sum_def contribution_def)

lemma net_remove:
  "t \<in> set ts \<Longrightarrow> transactions s = ts \<Longrightarrow>
   net (s\<lparr>transactions := remove1 t ts\<rparr>) a = net s a + contribution t a"
  by (auto simp add: net_def bal_def linked_sum_def contribution_def sum_remove1)

lemma net_replace:
  "t \<in> set ts \<Longrightarrow> transactions s = ts \<Longrightarrow>
   net (s\<lparr>transactions := replace1 t t' ts\<rparr>) a
     = net s a + contribution t a - contribution t' a"
  by (auto simp add: net_def bal_def linked_sum_def contribution_def sum_replace1)


lemma small_db_bw: "small_db s \<Longrightarrow> balances_within (2 ^ 50) s"
  by (simp add: small_db_def)

lemma small_db_amount: "small_db s \<Longrightarrow> t \<in> set (transactions s) \<Longrightarrow> within (2 ^ 50) (t_amount t)"
  by (simp add: small_db_def)

lemma net_undo:
  assumes "balances_within L1 s" "within L2 (t_amount t)" "L1 + L2 < 2 ^ 53"
    and "a \<in> dom (accounts s)"
  shows "net (case account_of s t of None \<Rightarrow> s
              | Some old \<Rightarrow> rollback_effect old (t_type t) (t_amount t) s) a
           = net s a - contribution t a"
proof (cases "account_of s t")
  case None
  then have "t_account t \<noteq> Some a"
    using assms(4) by (auto simp: account_of_def get_account_eq split: option.splits if_splits)
  then show ?thesis using None by (simp add: contribution_def)
next
  case (Some old)
  then have "t_account t = Some old"
    by (auto simp: account_of_def get_account_eq split: option.splits if_splits)
  then show ?thesis
    using Some assms(4) by (auto simp: net_rollback [OF assms(1,2,3)] contribution_def effect_def)
qed

lemma bw_undo:
  assumes "balances_within L1 s" "within L2 (t_amount t)" "L1 + L2 < 2 ^ 53"
  shows "balances_within (L1 + L2)
           (case account_of s t of None \<Rightarrow> s
            | Some old \<Rightarrow> rollback_effect old (t_type t) (t_amount t) s)"
  using assms by (auto split: option.splits intro: bw_rollback bw_mono)

lemma undo_transactions:
  "transactions (case account_of s t of None \<Rightarrow> s
            | Some a \<Rightarrow> rollback_effect a (t_type t) (t_amount t) s) = transactions s"
  by (simp split: option.splits)

lemma undo_dom:
  "dom (accounts (case account_of s t of None \<Rightarrow> s
            | Some a \<Rightarrow> rollback_effect a (t_type t) (t_amount t) s)) = dom (accounts s)"
  by (simp split: option.splits)

lemma add_dom: "dom (accounts (snd (add_transaction u f s))) = dom (accounts s)"
  by (auto simp: add_transaction_def Let_def split: option.splits)

lemma add_net:
  assumes "small_db s" "within (2 ^ 50) (f_amount f)" "a \<in> dom (accounts s)"
  shows "net (snd (add_transaction u f s)) a = net s a"
proof -
  have l: "(2::nat) ^ 50 + 2 ^ 50 < 2 ^ 53" by simp
  note na = net_adjust [OF small_db_bw [OF assms(1)] assms(2) l]
  note nr = net_reduce [OF small_db_bw [OF assms(1)] assms(2) l]
  show ?thesis
    using assms(3)
    by (simp add: add_transaction_def Let_def net_append na nr get_account_eq
        contribution_def effect_def form_type_def)
qed

lemma delete_dom: "dom (accounts (snd (delete_transaction u i s))) = dom (accounts s)"
  by (auto simp: delete_transaction_def Let_def split: option.splits)

lemma delete_net:
  assumes "small_db s" "a \<in> dom (accounts s)"
  shows "net (snd (delete_transaction u i s)) a = net s a"
proof (cases "find (\<lambda>t. t_id t = i \<and> t_user t = u) (transactions s)")
  case None
  then show ?thesis by (simp add: delete_transaction_def)
next
  case (Some t)
  have l: "(2::nat) ^ 50 + 2 ^ 50 < 2 ^ 53" by simp
  have tin: "t \<in> set (transactions s)" using Some by (rule find_in_set)
  note w = small_db_amount [OF assms(1) tin]
  define s1 where "s1 = (case account_of s t of None \<Rightarrow> s
              | Some old \<Rightarrow> rollback_effect old (t_type t) (t_amount t) s)"
  have n1: "net s1 a = net s a - contribution t a"
    unfolding s1_def by (rule net_undo [OF small_db_bw [OF assms(1)] w l assms(2)])
  have tr: "transactions s1 = transactions s" unfolding s1_def by (rule undo_transactions)
  have "snd (delete_transaction u i s) = s1\<lparr>transactions := remove1 t (transactions s1)\<rparr>"
    using Some by (simp add: delete_transaction_def s1_def Let_def)
  then show ?thesis using n1 tin tr by (simp add: net_remove)
qed

lemma edit_dom: "dom (accounts (snd (edit_transaction u i f s))) = dom (accounts s)"
  by (auto simp: edit_transaction_def Let_def split: option.splits)


lemma edit_net:
  assumes "small_db s" "within (2 ^ 50) (f_amount f)" "a \<in> dom (accounts s)"
  shows "net (snd (edit_transaction u i f s)) a = net s a"
proof (cases "find (\<lambda>t. t_id t = i \<and> t_user t = u) (transactions s)")
  case None
  then show ?thesis by (simp add: edit_transaction_def)
next
  case (Some t)
  show ?thesis
  proof (cases "validate_on_submit s u f")
    case False
    then show ?thesis using Some by (simp add: edit_transaction_def)
  next
    case True
    have l: "(2::nat) ^ 50 + 2 ^ 50 < 2 ^ 53" by simp
    have l2: "((2::nat) ^ 50 + 2 ^ 50) + 2 ^ 50 < 2 ^ 53" by simp
    have tin: "t \<in> set (transactions s)" using Some by (rule find_in_set)
    note w = small_db_amount [OF assms(1) tin]
    note bw = small_db_bw [OF assms(1)]
    define s1 where "s1 = (case account_of s t of None \<Rightarrow> s
                | Some old \<Rightarrow> rollback_effect old (t_type t) (t_amount t) s)"
    define acc where "acc = (if f_account f \<noteq> 0 then get_account s1 (f_account f) else None)"
    define t' where "t' = t\<lparr>t_date := f_date f, t_amount := f_amount f,
                       t_type := form_type f,
                       t_category := (if f_category f \<noteq> 0 then get_category s1 (f_category f)
                          else None), t_account := acc, t_user := u\<rparr>"
    define s2 where "s2 = s1\<lparr>transactions := replace1 t t' (transactions s1)\<rparr>"
    define s3 where "s3 = (case acc of None \<Rightarrow> s2
                | Some j \<Rightarrow> apply_effect j (t_type t') (t_amount t') s2)"
    have n1: "net s1 a = net s a - contribution t a"
      unfolding s1_def by (rule net_undo [OF bw w l assms(3)])
    have bw1: "balances_within (2 ^ 50 + 2 ^ 50) s1"
      unfolding s1_def by (rule bw_undo [OF bw w l])
    have tr: "transactions s1 = transactions s" unfolding s1_def by (rule undo_transactions)
    have d1: "dom (accounts s1) = dom (accounts s)" unfolding s1_def by (rule undo_dom)
    have n2: "net s2 a = net s1 a + contribution t a - contribution t' a"
      unfolding s2_def using tin tr by (simp add: net_replace)
    have bw2: "balances_within (2 ^ 50 + 2 ^ 50) s2" unfolding s2_def using bw1 by simp
    have d2: "a \<in> dom (accounts s2)" unfolding s2_def using d1 assms(3) by simp
    have w': "within (2 ^ 50) (t_amount t')" using assms(2) by (simp add: t'_def)
    have n3: "net s3 a = net s2 a + contribution t' a"
    proof (cases acc)
      case None
      then show ?thesis by (simp add: s3_def contribution_def t'_def)
    next
      case (Some j)
      have "t_account t' = Some j" using Some by (simp add: t'_def)
      then show ?thesis
        using Some d2
        by (auto simp: s3_def net_apply [OF bw2 w' l2] contribution_def effect_def)
    qed
    have "snd (edit_transaction u i f s) = s3"
      by (simp only: edit_transaction_def Some option.case True if_True Let_def snd_conv
            s3_def s2_def t'_def acc_def s1_def)
    then show ?thesis using n1 n2 n3 by simp
  qed
qed

lemma handle_dom: "dom (accounts (snd (handle r s))) = dom (accounts s)"
  by (cases r) (simp_all add: add_dom edit_dom delete_dom)

lemma handle_net:
  "small_db s \<Longrightarrow> small_request r \<Longrightarrow> a \<in> dom (accounts s) \<Longrightarrow>
   net (snd (handle r s)) a = net s a"
  by (cases r) (simp_all add: add_net edit_net delete_net)

lemma run_dom: "dom (accounts (run rs s)) = dom (accounts s)"
  by (induction rs arbitrary: s) (simp_all add: handle_dom)

lemma run_net:
  "within_limits rs s \<Longrightarrow> a \<in> dom (accounts s) \<Longrightarrow> net (run rs s) a = net s a"
proof (induction rs arbitrary: s)
  case Nil
  then show ?case by simp
next
  case (Cons r rs)
  have "a \<in> dom (accounts (snd (handle r s)))"
    using Cons.prems by (simp add: handle_dom)
  moreover have "within_limits rs (snd (handle r s))" using Cons.prems by simp
  ultimately have "net (run rs (snd (handle r s))) a = net (snd (handle r s)) a"
    using Cons.IH by blast
  then show ?case using Cons.prems by (simp add: handle_net)
qed

section \<open>What each view does to a balance\<close>

lemma accounts_adjust:
  "accounts (adjust_balance i d s) a =
     (if a = i then map_option (\<lambda>acc. acc\<lparr>balance := fadd (balance acc) d\<rparr>) (accounts s a)
      else accounts s a)"
  by (simp add: adjust_balance_def split: option.splits)

lemma accounts_reduce:
  "accounts (reduce_balance i d s) a =
     (if a = i then map_option (\<lambda>acc. acc\<lparr>balance := fsub (balance acc) d\<rparr>) (accounts s a)
      else accounts s a)"
  by (simp add: reduce_balance_def split: option.splits)

lemma accounts_rollback:
  "accounts (rollback_effect i ty m s) a =
     (if a = i then map_option (\<lambda>acc. acc\<lparr>balance := reversed ty m (balance acc)\<rparr>) (accounts s a)
      else accounts s a)"
  by (simp add: rollback_effect_def reversed_def accounts_adjust accounts_reduce)

lemma accounts_apply:
  "accounts (apply_effect i ty m s) a =
     (if a = i then map_option (\<lambda>acc. acc\<lparr>balance := applied ty m (balance acc)\<rparr>) (accounts s a)
      else accounts s a)"
  by (simp add: apply_effect_def applied_def accounts_adjust accounts_reduce)

lemma accounts_undo:
  assumes "accounts s a = Some acc0"
  shows "accounts (case account_of s t of None \<Rightarrow> s
                   | Some old \<Rightarrow> rollback_effect old (t_type t) (t_amount t) s) a
       = Some (acc0\<lparr>balance := if t_account t = Some a
                                then reversed (t_type t) (t_amount t) (balance acc0)
                                else balance acc0\<rparr>)"
  using assms
  by (auto simp: account_of_def get_account_def accounts_rollback split: option.splits)

lemma validated_account:
  "validate_on_submit s u f \<Longrightarrow> f_account f \<noteq> 0 \<Longrightarrow>
   get_account s (f_account f) = Some (f_account f)"
  by (auto simp: validate_on_submit_def account_choice_def get_account_def split: option.splits)

lemma validated_category:
  "validate_on_submit s u f \<Longrightarrow> f_category f \<noteq> 0 \<Longrightarrow>
   get_category s (f_category f) = Some (f_category f)"
  by (auto simp: validate_on_submit_def category_choice_def get_category_def split: option.splits)

lemma add_applies:
  assumes "validate_on_submit s u f" "accounts s a = Some acc0"
  shows "fst (add_transaction u f s) = Redirect
    \<and> accounts (snd (add_transaction u f s)) a =
        Some (acc0\<lparr>balance := if f_account f = a \<and> a \<noteq> 0
                               then applied (form_type f) (f_amount f) (balance acc0)
                               else balance acc0\<rparr>)
    \<and> transactions (snd (add_transaction u f s)) =
        transactions s @
          [\<lparr>t_id = new_id (transactions s), t_user = u, t_date = f_date f,
            t_amount = f_amount f, t_type = form_type f,
            t_category = (if f_category f \<noteq> 0 then Some (f_category f) else None),
            t_account = (if f_account f \<noteq> 0 then Some (f_account f) else None)\<rparr>]"
  using assms validated_account [OF assms(1)] validated_category [OF assms(1)]
  by (auto simp: add_transaction_def Let_def accounts_adjust accounts_reduce applied_def
        form_type_def)

lemma delete_reverses:
  assumes "find (\<lambda>t. t_id t = i \<and> t_user t = u) (transactions s) = Some t"
    and "accounts s a = Some acc0"
  shows "fst (delete_transaction u i s) = Redirect
    \<and> accounts (snd (delete_transaction u i s)) a =
        Some (acc0\<lparr>balance := if t_account t = Some a
                               then reversed (t_type t) (t_amount t) (balance acc0)
                               else balance acc0\<rparr>)
    \<and> transactions (snd (delete_transaction u i s)) = remove1 t (transactions s)"
  using assms(1) accounts_undo [OF assms(2), of t]
  by (simp add: delete_transaction_def Let_def undo_transactions)

lemma undo_categories:
  "categories (case account_of s t of None \<Rightarrow> s
            | Some a \<Rightarrow> rollback_effect a (t_type t) (t_amount t) s) = categories s"
  by (simp add: rollback_effect_def adjust_balance_def reduce_balance_def split: option.splits)

lemma edit_reapplies:
  assumes "find (\<lambda>t. t_id t = i \<and> t_user t = u) (transactions s) = Some t"
    and "validate_on_submit s u f"
    and "accounts s a = Some acc0"
  shows "fst (edit_transaction u i f s) = Redirect
    \<and> accounts (snd (edit_transaction u i f s)) a =
        Some (acc0\<lparr>balance :=
           if f_account f = a \<and> a \<noteq> 0
           then applied (form_type f) (f_amount f)
                  (if t_account t = Some a
                   then reversed (t_type t) (t_amount t) (balance acc0) else balance acc0)
           else if t_account t = Some a
                then reversed (t_type t) (t_amount t) (balance acc0) else balance acc0\<rparr>)
    \<and> transactions (snd (edit_transaction u i f s)) =
        replace1 t
          (t\<lparr>t_date := f_date f, t_amount := f_amount f, t_type := form_type f,
             t_category := (if f_category f \<noteq> 0 then Some (f_category f) else None),
             t_account := (if f_account f \<noteq> 0 then Some (f_account f) else None),
             t_user := u\<rparr>)
          (transactions s)"
proof -
  define s1 where "s1 = (case account_of s t of None \<Rightarrow> s
              | Some old \<Rightarrow> rollback_effect old (t_type t) (t_amount t) s)"
  define acc where "acc = (if f_account f \<noteq> 0 then get_account s1 (f_account f) else None)"
  define t' where "t' = t\<lparr>t_date := f_date f, t_amount := f_amount f,
                     t_type := form_type f,
                     t_category := (if f_category f \<noteq> 0 then get_category s1 (f_category f)
                        else None), t_account := acc, t_user := u\<rparr>"
  define s2 where "s2 = s1\<lparr>transactions := replace1 t t' (transactions s1)\<rparr>"
  define s3 where "s3 = (case acc of None \<Rightarrow> s2
              | Some j \<Rightarrow> apply_effect j (t_type t') (t_amount t') s2)"
  define b1 where "b1 = (if t_account t = Some a
                   then reversed (t_type t) (t_amount t) (balance acc0) else balance acc0)"
  have e: "edit_transaction u i f s = (Redirect, s3)"
    by (simp only: edit_transaction_def assms(1) option.case assms(2) if_True Let_def
          s3_def s2_def t'_def acc_def s1_def)
  have a1: "accounts s1 a = Some (acc0\<lparr>balance := b1\<rparr>)"
    unfolding s1_def b1_def by (rule accounts_undo [OF assms(3)])
  have tr: "transactions s1 = transactions s" unfolding s1_def by (rule undo_transactions)
  have d1: "dom (accounts s1) = dom (accounts s)" unfolding s1_def by (rule undo_dom)
  have c1: "categories s1 = categories s" unfolding s1_def by (rule undo_categories)
  have acc: "acc = (if f_account f \<noteq> 0 then Some (f_account f) else None)"
    using validated_account [OF assms(2)] d1 by (simp add: acc_def get_account_eq)
  have cat: "(if f_category f \<noteq> 0 then get_category s1 (f_category f) else None)
               = (if f_category f \<noteq> 0 then Some (f_category f) else None)"
    using validated_category [OF assms(2)] c1 by (simp add: get_category_def)
  have t': "t' = t\<lparr>t_date := f_date f, t_amount := f_amount f, t_type := form_type f,
             t_category := (if f_category f \<noteq> 0 then Some (f_category f) else None),
             t_account := (if f_account f \<noteq> 0 then Some (f_account f) else None),
             t_user := u\<rparr>"
    unfolding t'_def cat acc by (rule refl)
  have a2: "accounts s2 a = Some (acc0\<lparr>balance := b1\<rparr>)" using a1 by (simp add: s2_def)
  have a3: "accounts s3 a =
        Some (acc0\<lparr>balance := if f_account f = a \<and> a \<noteq> 0
                               then applied (form_type f) (f_amount f) b1 else b1\<rparr>)"
    using a2 by (auto simp: s3_def acc accounts_apply t'_def)
  have tr3: "transactions s3 = replace1 t t' (transactions s)"
    by (simp add: s3_def s2_def tr split: option.splits)
  show ?thesis unfolding e using a3 tr3 by (simp add: b1_def t')
qed

lemma run_exact:
  assumes "accounts s a = Some acc0" "within_limits rs s"
  shows "\<exists>acc. accounts (run rs s) a = Some acc
           \<and> units (balance acc)
               = units (balance acc0) - linked_sum s a + linked_sum (run rs s) a"
proof -
  have d: "a \<in> dom (accounts s)" using assms(1) by auto
  then have "a \<in> dom (accounts (run rs s))" by (simp add: run_dom)
  then obtain acc where acc: "accounts (run rs s) a = Some acc" by auto
  have "net (run rs s) a = net s a" using assms(2) d by (rule run_net)
  then have "units (balance acc) - linked_sum (run rs s) a
               = units (balance acc0) - linked_sum s a"
    using acc assms(1) by (simp add: net_def bal_def)
  then show ?thesis using acc by simp
qed

section \<open>The balance claim\<close>

lemma tenth_plus_zero:
  "fadd (dbl 0 0) (dbl 7205759403792794 (- 56)) = dbl 7205759403792794 (- 56)"
  by (subst fadd_dbl [where e = "- 56"]) (simp_all add: round53_def round_even_def)

lemma fifth_plus_zero:
  "fadd (dbl 0 0) (dbl 7205759403792794 (- 55)) = dbl 7205759403792794 (- 55)"
  by (subst fadd_dbl [where e = "- 55"]) (simp_all add: round53_def round_even_def)

lemma tenth_plus_fifth:
  "fadd (dbl 7205759403792794 (- 56)) (dbl 7205759403792794 (- 55))
     = dbl 5404319552844596 (- 54)"
proof -
  have "fadd (dbl 7205759403792794 (- 56)) (dbl 7205759403792794 (- 55))
          = dbl (4 * 5404319552844596) (- 56)"
    by (subst fadd_dbl [where e = "- 56"]) (simp_all add: round53_def round_even_def)
  then show ?thesis by (simp add: dbl_def)
qed

lemma sum_minus_tenth:
  "fsub (dbl 5404319552844596 (- 54)) (dbl 7205759403792794 (- 56))
     = dbl 7205759403792795 (- 55)"
proof -
  have "fsub (dbl 5404319552844596 (- 54)) (dbl 7205759403792794 (- 56))
          = dbl (2 * 7205759403792795) (- 56)"
    by (subst fsub_dbl [where e = "- 56"]) (simp_all add: round53_def round_even_def)
  then show ?thesis by (simp add: dbl_def)
qed

lemma tenths_accounts:
  "accounts tenths_run 1
     = Some \<lparr>acc_user = 1, balance = dbl 7205759403792795 (- 55), is_active = True\<rparr>"
  by (simp add: tenths_run_def tenths_db_def empty_db_def demo_form_def add_transaction_def
        delete_transaction_def validate_on_submit_def account_choice_def get_account_def
        account_of_def adjust_balance_def reduce_balance_def rollback_effect_def
        form_type_def new_id_def Let_def tenth_plus_zero tenth_plus_fifth sum_minus_tenth)

lemma tenths_transactions:
  "transactions tenths_run
     = [\<lparr>t_id = 2, t_user = 1, t_date = \<lparr>year = 2024, month = 1, day = 15\<rparr>,
         t_amount = dbl 7205759403792794 (- 55), t_type = Income, t_category = None,
         t_account = Some 1\<rparr>]"
  by (simp add: tenths_run_def tenths_db_def empty_db_def demo_form_def add_transaction_def
        delete_transaction_def validate_on_submit_def account_choice_def get_account_def
        account_of_def adjust_balance_def reduce_balance_def rollback_effect_def
        form_type_def new_id_def Let_def)


text \<open>
  C1, as the code has it. For every account \<open>a\<close>: a valid \<^verbatim>\<open>add_transaction\<close> appends the
  row and applies its signed amount to the linked account (one float addition for an
  income, one subtraction for an expense); \<^verbatim>\<open>delete_transaction\<close> reverses the effect of
  the row on its linked account and removes the row; a valid \<^verbatim>\<open>edit_transaction\<close>
  reverses the old effect, rewrites the row and applies the new effect; no other balance
  changes. Each of these operations rounds, so the balance is the initial balance plus
  the sum of the signed effects of the rows now linked to the account whenever none of
  them rounds: in particular for a ledger in whole units whose balances and amounts stay
  within \<open>2^50\<close> along the requests.
\<close>

theorem balance_follows_effects:
  assumes "accounts s a = Some acc0"
  shows "(validate_on_submit s u f \<longrightarrow>
            fst (add_transaction u f s) = Redirect
          \<and> accounts (snd (add_transaction u f s)) a =
              Some (acc0\<lparr>balance := if f_account f = a \<and> a \<noteq> 0
                                     then applied (form_type f) (f_amount f) (balance acc0)
                                     else balance acc0\<rparr>)
          \<and> transactions (snd (add_transaction u f s)) =
              transactions s @
                [\<lparr>t_id = new_id (transactions s), t_user = u, t_date = f_date f,
                  t_amount = f_amount f, t_type = form_type f,
                  t_category = (if f_category f \<noteq> 0 then Some (f_category f) else None),
                  t_account = (if f_account f \<noteq> 0 then Some (f_account f) else None)\<rparr>])
       \<and> (find (\<lambda>t. t_id t = i \<and> t_user t = u) (transactions s) = Some t \<longrightarrow>
            fst (delete_transaction u i s) = Redirect
          \<and> accounts (snd (delete_transaction u i s)) a =
              Some (acc0\<lparr>balance := if t_account t = Some a
                                     then reversed (t_type t) (t_amount t) (balance acc0)
                                     else balance acc0\<rparr>)
          \<and> transactions (snd (delete_transaction u i s)) = remove1 t (transactions s))
       \<and> (find (\<lambda>t. t_id t = i \<and> t_user t = u) (transactions s) = Some t
            \<and> validate_on_submit s u f \<longrightarrow>
            fst (edit_transaction u i f s) = Redirect
          \<and> accounts (snd (edit_transaction u i f s)) a =
              Some (acc0\<lparr>balance :=
                 if f_account f = a \<and> a \<noteq> 0
                 then applied (form_type f) (f_amount f)
                        (if t_account t = Some a
                         then reversed (t_type t) (t_amount t) (balance acc0)
                         else balance acc0)
                 else if t_account t = Some a
                      then reversed (t_type t) (t_amount t) (balance acc0)
                      else balance acc0\<rparr>)
          \<and> transactions (snd (edit_transaction u i f s)) =
              replace1 t
                (t\<lparr>t_date := f_date f, t_amount := f_amount f, t_type := form_type f,
                   t_category := (if f_category f \<noteq> 0 then Some (f_category f) else None),
                   t_account := (if f_account f \<noteq> 0 then Some (f_account f) else None),
                   t_user := u\<rparr>)
                (transactions s))
       \<and> (within_limits rs s \<longrightarrow>
            (\<exists>acc. accounts (run rs s) a = Some acc
               \<and> units (balance acc)
                   = units (balance acc0) - linked_sum s a + linked_sum (run rs s) a))"
proof (intro conjI)
  show "validate_on_submit s u f \<longrightarrow>
            fst (add_transaction u f s) = Redirect
          \<and> accounts (snd (add_transaction u f s)) a =
              Some (acc0\<lparr>balance := if f_account f = a \<and> a \<noteq> 0
                                     then applied (form_type f) (f_amount f) (balance acc0)
                                     else balance acc0\<rparr>)
          \<and> transactions (snd (add_transaction u f s)) =
              transactions s @
                [\<lparr>t_id = new_id (transactions s), t_user = u, t_date = f_date f,
                  t_amount = f_amount f, t_type = form_type f,
                  t_category = (if f_category f \<noteq> 0 then Some (f_category f) else None),
                  t_account = (if f_account f \<noteq> 0 then Some (f_account f) else None)\<rparr>]"
    using add_applies [OF _ assms] by blast
next
  show "find (\<lambda>t. t_id t = i \<and> t_user t = u) (transactions s) = Some t \<longrightarrow>
            fst (delete_transaction u i s) = Redirect
          \<and> accounts (snd (delete_transaction u i s)) a =
              Some (acc0\<lparr>balance := if t_account t = Some a
                                     then reversed (t_type t) (t_amount t) (balance acc0)
                                     else balance acc0\<rparr>)
          \<and> transactions (snd (delete_transaction u i s)) = remove1 t (transactions s)"
    using delete_reverses [OF _ assms] by blast
next
  show "find (\<lambda>t. t_id t = i \<and> t_user t = u) (transactions s) = Some t
            \<and> validate_on_submit s u f \<longrightarrow>
            fst (edit_transaction u i f s) = Redirect
          \<and> accounts (snd (edit_transaction u i f s)) a =
              Some (acc0\<lparr>balance :=
                 if f_account f = a \<and> a \<noteq> 0
                 then applied (form_type f) (f_amount f)
                        (if t_account t = Some a
                         then reversed (t_type t) (t_amount t) (balance acc0)
                         else balance acc0)
                 else if t_account t = Some a
                      then reversed (t_type t) (t_amount t) (balance acc0)
                      else balance acc0\<rparr>)
          \<and> transactions (snd (edit_transaction u i f s)) =
              replace1 t
                (t\<lparr>t_date := f_date f, t_amount := f_amount f, t_type := form_type f,
                   t_category := (if f_category f \<noteq> 0 then Some (f_category f) else None),
                   t_account := (if f_account f \<noteq> 0 then Some (f_account f) else None),
                   t_user := u\<rparr>)
                (transactions s)"
    using edit_reapplies [OF _ _ assms] by blast
next
  show "within_limits rs s \<longrightarrow>
            (\<exists>acc. accounts (run rs s) a = Some acc
               \<and> units (balance acc)
                   = units (balance acc0) - linked_sum s a + linked_sum (run rs s) a)"
    using run_exact [OF assms] by blast
qed

text \<open>
  C1 as stated fails: in the ledger in tenths the account starts at \<open>0.0\<close> without rows
  and ends with the single income \<open>0.2\<close> linked to it, yet its balance is
  \<open>0.20000000000000004\<close>, which is neither the float sum \<open>0.0 + 0.2\<close> nor the exact
  one.
\<close>

theorem balance_differs_from_sum_of_effects:
  "map_option balance (accounts tenths_db 1) = Some (dbl 0 0)
   \<and> transactions tenths_db = []
   \<and> map_option balance (accounts tenths_run 1) = Some (dbl 7205759403792795 (- 55))
   \<and> map t_amount (transactions tenths_run) = [dbl 7205759403792794 (- 55)]
   \<and> map t_type (transactions tenths_run) = [Income]
   \<and> map t_account (transactions tenths_run) = [Some 1]
   \<and> fadd (dbl 0 0) (dbl 7205759403792794 (- 55)) \<noteq> dbl 7205759403792795 (- 55)
   \<and> bal tenths_run 1 \<noteq> bal tenths_db 1 + linked_sum tenths_run 1"
proof -
  have ne: "dbl 7205759403792794 (- 55) \<noteq> dbl 7205759403792795 (- 55)"
    by (simp add: dbl_def)
  have u: "bal tenths_run 1 \<noteq> bal tenths_db 1 + linked_sum tenths_run 1"
    using tenths_accounts tenths_transactions
    by (simp add: bal_def linked_sum_def effect_def tenths_db_def empty_db_def dbl_def
          signed_def)
  show ?thesis
    using ne u tenths_accounts tenths_transactions fifth_plus_zero
    by (simp add: tenths_db_def empty_db_def)
qed

lemma demo_limits: "within_limits demo_requests foreign_db"
  by (simp add: demo_requests_def small_db_def balances_within_def foreign_db_def demo_db_def
        empty_db_def demo_form_def add_transaction_def edit_transaction_def
        delete_transaction_def validate_on_submit_def account_choice_def get_account_def
        account_of_def adjust_balance_def reduce_balance_def rollback_effect_def
        apply_effect_def form_type_def new_id_def Let_def within_dbl0 fadd_dbl0 fsub_dbl0)

theorem balance_follows_effects_witness:
  "accounts foreign_db 1 = Some \<lparr>acc_user = 1, balance = dbl 100 0, is_active = True\<rparr>
   \<and> validate_on_submit foreign_db 1 (demo_form ''expense'' (dbl 30 0) 1)
   \<and> find (\<lambda>t. t_id t = 8 \<and> t_user t = 1) (transactions foreign_db)
       = Some \<lparr>t_id = 8, t_user = 1, t_date = demo_day, t_amount = dbl 10 0,
               t_type = Income, t_category = None, t_account = Some 1\<rparr>
   \<and> within_limits demo_requests foreign_db
   \<and> accounts (snd (add_transaction 1 (demo_form ''expense'' (dbl 30 0) 1) foreign_db)) 1
       = Some \<lparr>acc_user = 1, balance = dbl 70 0, is_active = True\<rparr>
   \<and> accounts (snd (delete_transaction 1 8 foreign_db)) 1
       = Some \<lparr>acc_user = 1, balance = dbl 90 0, is_active = True\<rparr>
   \<and> map t_id (transactions (snd (delete_transaction 1 8 foreign_db))) = [7]
   \<and> accounts (snd (edit_transaction 1 8 (demo_form ''expense'' (dbl 30 0) 1) foreign_db)) 1
       = Some \<lparr>acc_user = 1, balance = dbl 60 0, is_active = True\<rparr>
   \<and> (\<exists>acc. accounts (run demo_requests foreign_db) 1 = Some acc
         \<and> units (balance acc)
             = units (dbl 100 0) - linked_sum foreign_db 1
                 + linked_sum (run demo_requests foreign_db) 1)"
proof -
  have h0: "accounts foreign_db 1
              = Some \<lparr>acc_user = 1, balance = dbl 100 0, is_active = True\<rparr>"
    by (simp add: foreign_db_def demo_db_def empty_db_def)
  have hv: "validate_on_submit foreign_db 1 (demo_form ''expense'' (dbl 30 0) 1)"
    by (simp add: validate_on_submit_def demo_form_def account_choice_def foreign_db_def
          demo_db_def empty_db_def)
  have hf: "find (\<lambda>t. t_id t = 8 \<and> t_user t = 1) (transactions foreign_db)
       = Some \<lparr>t_id = 8, t_user = 1, t_date = demo_day, t_amount = dbl 10 0,
               t_type = Income, t_category = None, t_account = Some 1\<rparr>"
    by (simp add: foreign_db_def)
  have hw: "within_limits demo_requests foreign_db" by (rule demo_limits)
  show ?thesis
    using h0 hv hf hw
      balance_follows_effects [OF h0, where u = 1 and f = "demo_form ''expense'' (dbl 30 0) 1"
        and i = 8
        and t = "\<lparr>t_id = 8, t_user = 1, t_date = demo_day, t_amount = dbl 10 0,
               t_type = Income, t_category = None, t_account = Some 1\<rparr>"
        and rs = demo_requests]
    by (simp add: applied_def reversed_def demo_form_def form_type_def fsub_dbl0 fadd_dbl0
          foreign_db_def)
qed

section \<open>The transfer claim\<close>

text \<open>
  C9, as the code has it. A transfer of amount m between two accounts offered to the
  user (the user's own active accounts), with a form whose fields validate: when the
  source differs from the destination and the source balance is not less than m, the
  session gains exactly two rows of amount m, an expense on the source and an income on
  the destination, the source balance becomes the float difference balance - m and the
  destination balance the float sum balance + m, and nothing else changes; otherwise the
  form is rendered again and the session is unchanged. Both operations round, so the sum
  of the two balances is preserved when neither does: in particular for balances and an
  amount in whole units within \<open>2^51\<close>.
\<close>

theorem transfer_moves_amount:
  assumes ok: "tf_fields_ok form"
    and cf: "account_choice s user_id (tf_from_account form)"
    and ct: "account_choice s user_id (tf_to_account form)"
  shows "\<exists>from_acc to_acc.
           accounts s (tf_from_account form) = Some from_acc
         \<and> accounts s (tf_to_account form) = Some to_acc
         \<and> acc_user from_acc = user_id \<and> acc_user to_acc = user_id
         \<and> transfer user_id form s =
             Inr (if tf_from_account form \<noteq> tf_to_account form
                     \<and> \<not> flt (balance from_acc) (tf_amount form)
                  then (Redirect,
                        s\<lparr>accounts := (accounts s)
                             (tf_from_account form \<mapsto>
                                from_acc\<lparr>balance := fsub (balance from_acc) (tf_amount form)\<rparr>,
                              tf_to_account form \<mapsto>
                                to_acc\<lparr>balance := fadd (balance to_acc) (tf_amount form)\<rparr>),
                           transactions := transactions s @
                             [\<lparr>t_id = new_id (transactions s), t_user = user_id,
                               t_date = tf_date form, t_amount = tf_amount form,
                               t_type = Expense, t_category = None,
                               t_account = Some (tf_from_account form)\<rparr>,
                              \<lparr>t_id = new_id (transactions s) + 1, t_user = user_id,
                               t_date = tf_date form, t_amount = tf_amount form,
                               t_type = Income, t_category = None,
                               t_account = Some (tf_to_account form)\<rparr>]\<rparr>)
                  else (Render, s))
         \<and> (within (2 ^ 51) (balance from_acc) \<and> within (2 ^ 51) (balance to_acc)
              \<and> within (2 ^ 51) (tf_amount form) \<longrightarrow>
             (\<forall>resp s'. transfer user_id form s = Inr (resp, s') \<longrightarrow>
               bal s' (tf_from_account form) + bal s' (tf_to_account form)
                 = bal s (tf_from_account form) + bal s (tf_to_account form)))"
proof -
  obtain fa where fa: "accounts s (tf_from_account form) = Some fa" "acc_user fa = user_id"
    using account_choice_Some [OF cf] by auto
  obtain ta where ta: "accounts s (tf_to_account form) = Some ta" "acc_user ta = user_id"
    using account_choice_Some [OF ct] by auto
  have eq: "transfer user_id form s =
             Inr (if tf_from_account form \<noteq> tf_to_account form
                     \<and> \<not> flt (balance fa) (tf_amount form)
                  then (Redirect,
                        s\<lparr>accounts := (accounts s)
                             (tf_from_account form \<mapsto>
                                fa\<lparr>balance := fsub (balance fa) (tf_amount form)\<rparr>,
                              tf_to_account form \<mapsto>
                                ta\<lparr>balance := fadd (balance ta) (tf_amount form)\<rparr>),
                           transactions := transactions s @
                             [\<lparr>t_id = new_id (transactions s), t_user = user_id,
                               t_date = tf_date form, t_amount = tf_amount form,
                               t_type = Expense, t_category = None,
                               t_account = Some (tf_from_account form)\<rparr>,
                              \<lparr>t_id = new_id (transactions s) + 1, t_user = user_id,
                               t_date = tf_date form, t_amount = tf_amount form,
                               t_type = Income, t_category = None,
                               t_account = Some (tf_to_account form)\<rparr>]\<rparr>)
                  else (Render, s))"
    using ok cf ct fa ta
    by (auto simp: transfer_def Let_def adjust_balance_def reduce_balance_def)
  have ex: "within (2 ^ 51) (balance fa) \<and> within (2 ^ 51) (balance ta)
              \<and> within (2 ^ 51) (tf_amount form) \<longrightarrow>
             (\<forall>resp s'. transfer user_id form s = Inr (resp, s') \<longrightarrow>
               bal s' (tf_from_account form) + bal s' (tf_to_account form)
                 = bal s (tf_from_account form) + bal s (tf_to_account form))"
  proof (intro impI)
    assume w: "within (2 ^ 51) (balance fa) \<and> within (2 ^ 51) (balance ta)
              \<and> within (2 ^ 51) (tf_amount form)"
    have l: "(2::nat) ^ 51 + 2 ^ 51 < 2 ^ 53" by simp
    have d: "units (fsub (balance fa) (tf_amount form))
               = units (balance fa) - units (tf_amount form)"
      using fsub_within [of "2 ^ 51" "balance fa" "2 ^ 51" "tf_amount form"] w l by blast
    have u: "units (fadd (balance ta) (tf_amount form))
               = units (balance ta) + units (tf_amount form)"
      using fadd_within [of "2 ^ 51" "balance ta" "2 ^ 51" "tf_amount form"] w l by blast
    show "\<forall>resp s'. transfer user_id form s = Inr (resp, s') \<longrightarrow>
               bal s' (tf_from_account form) + bal s' (tf_to_account form)
                 = bal s (tf_from_account form) + bal s (tf_to_account form)"
      unfolding eq using fa ta d u by (auto simp: bal_def split: if_splits)
  qed
  show ?thesis using eq ex fa ta by blast
qed


theorem transfer_moves_amount_witness:
  "tf_fields_ok demo_transfer
   \<and> account_choice demo_db 1 (tf_from_account demo_transfer)
   \<and> account_choice demo_db 1 (tf_to_account demo_transfer)
   \<and> within (2 ^ 51) (dbl 100 0) \<and> within (2 ^ 51) (dbl 40 0) \<and> within (2 ^ 51) (dbl 30 0)
   \<and> (\<exists>s'. transfer 1 demo_transfer demo_db = Inr (Redirect, s')
          \<and> map_option balance (accounts demo_db 1) = Some (dbl 100 0)
          \<and> map_option balance (accounts demo_db 2) = Some (dbl 40 0)
          \<and> map_option balance (accounts s' 1) = Some (dbl 70 0)
          \<and> map_option balance (accounts s' 2) = Some (dbl 70 0)
          \<and> bal s' 1 + bal s' 2 = bal demo_db 1 + bal demo_db 2
          \<and> map t_amount (transactions s') = [dbl 30 0, dbl 30 0]
          \<and> map t_type (transactions s') = [Expense, Income]
          \<and> map t_account (transactions s') = [Some 1, Some 2])"
proof -
  have h1: "tf_fields_ok demo_transfer" by (simp add: demo_transfer_def)
  have h2: "account_choice demo_db 1 (tf_from_account demo_transfer)"
    by (simp add: demo_transfer_def demo_db_def empty_db_def account_choice_def)
  have h3: "account_choice demo_db 1 (tf_to_account demo_transfer)"
    by (simp add: demo_transfer_def demo_db_def empty_db_def account_choice_def)
  have w: "within (2 ^ 51) (dbl 100 0)" "within (2 ^ 51) (dbl 40 0)"
    "within (2 ^ 51) (dbl 30 0)"
    by (simp_all add: within_dbl0)
  have c: "\<not> flt (dbl 100 0) (dbl 30 0)"
    by (subst flt_dbl [where e = 0]) simp_all
  show ?thesis
    using h1 h2 h3 w c transfer_moves_amount [OF h1 h2 h3]
    by (auto simp: demo_transfer_def demo_db_def empty_db_def fsub_dbl0 fadd_dbl0)
qed

lemma tenths_moved:
  "fsub (dbl 4953959590107546 (- 52)) (dbl 5404319552844595 (- 54))
     = dbl 7205759403792794 (- 53)"
  "fadd (dbl 4953959590107546 (- 51)) (dbl 5404319552844595 (- 54))
     = dbl 5629499534213120 (- 51)"
proof -
  have "fsub (dbl 4953959590107546 (- 52)) (dbl 5404319552844595 (- 54))
          = dbl (2 * 7205759403792794) (- 54)"
    by (subst fsub_dbl [where e = "- 54"]) (simp_all add: round53_def round_even_def)
  then show "fsub (dbl 4953959590107546 (- 52)) (dbl 5404319552844595 (- 54))
     = dbl 7205759403792794 (- 53)"
    by (simp add: dbl_def)
  have "fadd (dbl 4953959590107546 (- 51)) (dbl 5404319552844595 (- 54))
          = dbl (8 * 5629499534213120) (- 54)"
    by (subst fadd_dbl [where e = "- 54"]) (simp_all add: round53_def round_even_def)
  then show "fadd (dbl 4953959590107546 (- 51)) (dbl 5404319552844595 (- 54))
     = dbl 5629499534213120 (- 51)"
    by (simp add: dbl_def)
qed

lemma tenths_sums:
  "fadd (dbl 4953959590107546 (- 52)) (dbl 4953959590107546 (- 51))
     = dbl 7430939385161319 (- 51)"
  "fadd (dbl 7205759403792794 (- 53)) (dbl 5629499534213120 (- 51))
     = dbl 7430939385161318 (- 51)"
proof -
  have "fadd (dbl 4953959590107546 (- 52)) (dbl 4953959590107546 (- 51))
          = dbl (2 * 7430939385161319) (- 52)"
    by (subst fadd_dbl [where e = "- 52"]) (simp_all add: round53_def round_even_def)
  then show "fadd (dbl 4953959590107546 (- 52)) (dbl 4953959590107546 (- 51))
     = dbl 7430939385161319 (- 51)"
    by (simp add: dbl_def)
  have "fadd (dbl 7205759403792794 (- 53)) (dbl 5629499534213120 (- 51))
          = dbl (4 * 7430939385161318) (- 53)"
    by (subst fadd_dbl [where e = "- 53"]) (simp_all add: round53_def round_even_def)
  then show "fadd (dbl 7205759403792794 (- 53)) (dbl 5629499534213120 (- 51))
     = dbl 7430939385161318 (- 51)"
    by (simp add: dbl_def)
qed

lemma tenths_enough:
  "\<not> flt (dbl 4953959590107546 (- 52)) (dbl 5404319552844595 (- 54))"
  by (subst flt_dbl [where e = "- 54"]) simp_all

text \<open>
  C9 as stated fails twice. An account of the same user that has been deactivated is
  not offered by the form: the transfer of 30 from the first account (balance 100) to
  it is refused, although the accounts differ and the balance suffices. And in the
  ledger in tenths the transfer of \<open>0.3\<close> from \<open>1.1\<close> to \<open>2.2\<close> leaves \<open>0.8\<close> and
  \<open>2.5\<close>: the sum of the two balances has changed, as an exact number and as the float
  sum (\<open>3.3000000000000003\<close> before, \<open>3.3\<close> after).
\<close>

theorem transfer_refused_or_rounded:
  "map_option acc_user (accounts inact_db 1) = Some 1
   \<and> map_option acc_user (accounts inact_db 2) = Some 1
   \<and> map_option balance (accounts inact_db 1) = Some (dbl 100 0)
   \<and> tf_from_account demo_transfer = 1 \<and> tf_to_account demo_transfer = 2
   \<and> tf_amount demo_transfer = dbl 30 0
   \<and> \<not> flt (dbl 100 0) (dbl 30 0)
   \<and> transfer 1 demo_transfer inact_db = Inr (Render, inact_db)
   \<and> transfer 1 tenths_transfer tenths_accounts_db =
       Inr (Redirect, tenths_accounts_db\<lparr>
         accounts :=
           [1 \<mapsto> \<lparr>acc_user = 1, balance = dbl 7205759403792794 (- 53), is_active = True\<rparr>,
            2 \<mapsto> \<lparr>acc_user = 1, balance = dbl 5629499534213120 (- 51), is_active = True\<rparr>],
         transactions :=
           [\<lparr>t_id = 1, t_user = 1, t_date = demo_day,
             t_amount = dbl 5404319552844595 (- 54), t_type = Expense, t_category = None,
             t_account = Some 1\<rparr>,
            \<lparr>t_id = 2, t_user = 1, t_date = demo_day,
             t_amount = dbl 5404319552844595 (- 54), t_type = Income, t_category = None,
             t_account = Some 2\<rparr>]\<rparr>)
   \<and> units (dbl 7205759403792794 (- 53)) + units (dbl 5629499534213120 (- 51))
       \<noteq> units (dbl 4953959590107546 (- 52)) + units (dbl 4953959590107546 (- 51))
   \<and> fadd (dbl 7205759403792794 (- 53)) (dbl 5629499534213120 (- 51))
       \<noteq> fadd (dbl 4953959590107546 (- 52)) (dbl 4953959590107546 (- 51))"
proof -
  have c: "\<not> flt (dbl 100 0) (dbl 30 0)"
    by (subst flt_dbl [where e = 0]) simp_all
  have r: "transfer 1 demo_transfer inact_db = Inr (Render, inact_db)"
    by (simp add: transfer_def demo_transfer_def inact_db_def demo_db_def empty_db_def
          account_choice_def)
  have t: "transfer 1 tenths_transfer tenths_accounts_db =
       Inr (Redirect, tenths_accounts_db\<lparr>
         accounts :=
           [1 \<mapsto> \<lparr>acc_user = 1, balance = dbl 7205759403792794 (- 53), is_active = True\<rparr>,
            2 \<mapsto> \<lparr>acc_user = 1, balance = dbl 5629499534213120 (- 51), is_active = True\<rparr>],
         transactions :=
           [\<lparr>t_id = 1, t_user = 1, t_date = demo_day,
             t_amount = dbl 5404319552844595 (- 54), t_type = Expense, t_category = None,
             t_account = Some 1\<rparr>,
            \<lparr>t_id = 2, t_user = 1, t_date = demo_day,
             t_amount = dbl 5404319552844595 (- 54), t_type = Income, t_category = None,
             t_account = Some 2\<rparr>]\<rparr>)"
    using tenths_enough
    by (simp add: transfer_def tenths_transfer_def tenths_accounts_db_def empty_db_def
          account_choice_def adjust_balance_def reduce_balance_def new_id_def Let_def
          tenths_moved)
  have u: "units (dbl 7205759403792794 (- 53)) + units (dbl 5629499534213120 (- 51))
       \<noteq> units (dbl 4953959590107546 (- 52)) + units (dbl 4953959590107546 (- 51))"
    by (simp add: dbl_def signed_def)
  have f: "fadd (dbl 7205759403792794 (- 53)) (dbl 5629499534213120 (- 51))
       \<noteq> fadd (dbl 4953959590107546 (- 52)) (dbl 4953959590107546 (- 51))"
    unfolding tenths_sums by (simp add: dbl_def)
  have a: "map_option acc_user (accounts inact_db 1) = Some 1"
    "map_option acc_user (accounts inact_db 2) = Some 1"
    "map_option balance (accounts inact_db 1) = Some (dbl 100 0)"
    "tf_from_account demo_transfer = 1" "tf_to_account demo_transfer = 2"
    "tf_amount demo_transfer = dbl 30 0"
    by (simp_all add: inact_db_def demo_db_def empty_db_def demo_transfer_def)
  show ?thesis using a c r t u f by blast
qed

end
